theory Spec2Isabelle
  imports Main "HOL-Library.Multiset" "HOL-Library.Signed_Division"
begin

section \<open>Processes: reported events and exit codes\<close>

text \<open>
  A command is a sequence of steps. Each step may write to the reporter or to standard
  output, call a remote service, and end the process with \<^verbatim>\<open>os.Exit\<close>. A run is
  modelled by the events it produced, in order, and by how it ended: \<open>Inl c\<close> when
  \<^verbatim>\<open>os.Exit(c)\<close> was called, \<open>Inr a\<close> when the code returned \<open>a\<close>. The type
  parameter \<open>'c\<close> is the type of remote calls of the command at hand.
\<close>

datatype 'c event =
    Infof string
  | Warnf string
  | Errorf string
  | Println string
  | Call 'c
  | SpinnerStart
  | SpinnerStop
  | Cleanup

type_synonym ('c, 'a) proc = "'c event list \<times> (int + 'a)"

definition ret :: "'a \<Rightarrow> ('c, 'a) proc" where
  "ret a = ([], Inr a)"

definition emit :: "'c event \<Rightarrow> ('c, unit) proc" where
  "emit e = ([e], Inr ())"

definition os_Exit :: "int \<Rightarrow> ('c, 'a) proc" where
  "os_Exit c = ([], Inl c)"

definition and_then :: "('c, 'a) proc \<Rightarrow> ('a \<Rightarrow> ('c, 'b) proc) \<Rightarrow> ('c, 'b) proc" where
  "and_then m f =
     (case m of
        (es, Inl c) \<Rightarrow> (es, Inl c)
      | (es, Inr a) \<Rightarrow> (case f a of (es', r) \<Rightarrow> (es @ es', r)))"

definition remote :: "'c \<Rightarrow> 'r \<Rightarrow> ('c, 'r) proc" where
  \<comment> \<open>a remote call: the call is made, and its answer \<open>r\<close> comes back\<close>
  "remote c r = ([Call c], Inr r)"

definition if_then :: "bool \<Rightarrow> ('c, unit) proc \<Rightarrow> ('c, unit) proc" where
  "if_then b m = (if b then m else ret ())"

definition is_Errorf :: "'c event \<Rightarrow> bool" where
  "is_Errorf e = (case e of Errorf _ \<Rightarrow> True | _ \<Rightarrow> False)"


fun calls_of :: "'c event list \<Rightarrow> 'c list" where
  "calls_of [] = []"
| "calls_of (Call c # es) = c # calls_of es"
| "calls_of (_ # es) = calls_of es"


definition quoted :: "string \<Rightarrow> string" where
  \<comment> \<open>\<^verbatim>\<open>'%s'\<close> in a format string\<close>
  "quoted s = [CHR 0x27] @ s @ [CHR 0x27]"

fun join_with :: "string \<Rightarrow> string list \<Rightarrow> string" where
  "join_with sep [] = []"
| "join_with sep [x] = x"
| "join_with sep (x # y # ys) = x @ sep @ join_with sep (y # ys)"

definition fmt_strings :: "string list \<Rightarrow> string" where
  \<comment> \<open>\<^verbatim>\<open>%s\<close> of a \<^verbatim>\<open>[]string\<close>: the elements between brackets, separated by spaces\<close>
  "fmt_strings xs = ''['' @ join_with '' '' xs @ '']''"


section \<open>Deleting an OIDC configuration (cmd/dlt/oidcconfig)\<close>

subsection \<open>Strategy selection\<close>

record OidcConfigInput =
  PrivateKeySecretArn :: string
  BucketName :: string

datatype DeleteOidcConfigStrategy =
    DeleteRedHatHostedOidcConfigAutoStrategy OidcConfigInput
  | DeleteOidcConfigAutoStrategy OidcConfigInput
  | DeleteOidcConfigManualStrategy OidcConfigInput

text \<open>
  Modelled from the spec: the constants \<^verbatim>\<open>aws.ModeAuto\<close> and \<^verbatim>\<open>aws.ModeManual\<close> of
  package \<^verbatim>\<open>pkg/aws\<close> are not among the sources; the spec names the modes \<open>auto\<close> and
  \<open>manual\<close>. The list \<^verbatim>\<open>aws.Modes\<close> of the same package is an argument \<open>modes\<close> below,
  and so is the flag \<^verbatim>\<open>args.redHatHosted\<close>, a package-level variable in the source.
\<close>

definition ModeAuto :: string where "ModeAuto = ''auto''"
definition ModeManual :: string where "ModeManual = ''manual''"

definition getOidcConfigStrategy ::
  "string list \<Rightarrow> bool \<Rightarrow> string \<Rightarrow> OidcConfigInput \<Rightarrow> string + DeleteOidcConfigStrategy" where
  "getOidcConfigStrategy modes redHatHosted mode input =
     (if redHatHosted then Inr (DeleteRedHatHostedOidcConfigAutoStrategy input)
      else if mode = ModeAuto then Inr (DeleteOidcConfigAutoStrategy input)
      else if mode = ModeManual then Inr (DeleteOidcConfigManualStrategy input)
      else Inl (''Invalid mode. Allowed values are '' @ fmt_strings modes))"

subsection \<open>The runtime: reporter and remote clients\<close>

datatype oidc_call =
    DeleteRedHatHostedOidcConfig
  | DeleteSecretInSecretsManager string
  | DeleteS3Bucket string
  | HasAClusterUsingOidcConfig string

text \<open>
  The answers of the remote services are not determined by the program: the runtime
  record holds, for each client method, the error it answers with (\<open>None\<close> for Go's
  \<^verbatim>\<open>nil\<close> error), and whether the reporter writes to a terminal.
\<close>

record runtime =
  IsTerminal :: bool
  ocm_DeleteRedHatHostedOidcConfig :: "string option"
  aws_DeleteSecretInSecretsManager :: "string \<Rightarrow> string option"
  aws_DeleteS3Bucket :: "string \<Rightarrow> string option"
  ocm_HasAClusterUsingOidcConfig :: "string \<Rightarrow> string + bool"

definition report_and_exit :: "string \<Rightarrow> ('c, 'a) proc" where
  \<comment> \<open>\<^verbatim>\<open>r.Reporter.Errorf(...); os.Exit(1)\<close>\<close>
  "report_and_exit msg = and_then (emit (Errorf msg)) (\<lambda>_. os_Exit 1)"

definition exit_on_error :: "string \<Rightarrow> string option \<Rightarrow> ('c, unit) proc" where
  \<comment> \<open>\<^verbatim>\<open>if err != nil { r.Reporter.Errorf(prefix + err); os.Exit(1) }\<close>\<close>
  "exit_on_error prefix err =
     (case err of Some e \<Rightarrow> report_and_exit (prefix @ e) | None \<Rightarrow> ret ())"

subsection \<open>The three strategies\<close>

definition execute_hosted :: "runtime \<Rightarrow> OidcConfigInput \<Rightarrow> (oidc_call, unit) proc" where
  "execute_hosted r cfg =
     and_then (if_then (IsTerminal r)
                 (and_then (emit (Infof ''Deleting Red Hat hosted OIDC configuration''))
                    (\<lambda>_. emit SpinnerStart))) (\<lambda>_.
     and_then (remote DeleteRedHatHostedOidcConfig (ocm_DeleteRedHatHostedOidcConfig r)) (\<lambda>err.
     and_then (exit_on_error
                 ''There was a problem deleting Red Hat Hosted OIDC Configuration: '' err) (\<lambda>_.
     and_then (remote (DeleteSecretInSecretsManager (PrivateKeySecretArn cfg))
                 (aws_DeleteSecretInSecretsManager r (PrivateKeySecretArn cfg))) (\<lambda>err.
     and_then (exit_on_error
                 ''There was a problem deleting private key from secrets manager: '' err) (\<lambda>_.
     and_then (if_then (IsTerminal r) (emit SpinnerStop)) (\<lambda>_.
     if_then (IsTerminal r) (emit (Infof ''Deleted OIDC configuration''))))))))"

definition execute_auto :: "runtime \<Rightarrow> OidcConfigInput \<Rightarrow> (oidc_call, unit) proc" where
  "execute_auto r cfg =
     and_then (if_then (IsTerminal r)
                 (and_then (emit (Infof (''Deleting OIDC configuration '' @ quoted (BucketName cfg))))
                    (\<lambda>_. emit SpinnerStart))) (\<lambda>_.
     and_then (remote (DeleteSecretInSecretsManager (PrivateKeySecretArn cfg))
                 (aws_DeleteSecretInSecretsManager r (PrivateKeySecretArn cfg))) (\<lambda>err.
     and_then (exit_on_error
                 ''There was a problem deleting private key from secrets manager: '' err) (\<lambda>_.
     and_then (remote (DeleteS3Bucket (BucketName cfg)) (aws_DeleteS3Bucket r (BucketName cfg))) (\<lambda>err.
     and_then (exit_on_error
                 (''There was a problem deleting S3 bucket '' @ quoted (BucketName cfg) @ '': '') err) (\<lambda>_.
     and_then (if_then (IsTerminal r) (emit SpinnerStop)) (\<lambda>_.
     if_then (IsTerminal r) (emit (Infof ''Deleted OIDC configuration''))))))))"

text \<open>
  Modelled from the spec: the command builder package \<^verbatim>\<open>pkg/aws/commandbuilder\<close> is not
  among the sources; the spec says it "assembles equivalent shell command strings for
  manual mode". A builder is modelled as the record of what its setters were given, in
  the order given. The two functions that render text, \<^verbatim>\<open>Build\<close> and
  \<^verbatim>\<open>JoinCommands\<close>, are parameters (record \<open>commandbuilder\<close>).
\<close>

datatype cb_service = SecretsManagerService | S3Service
datatype cb_command = DeleteSecret | Remove | RemoveBucket
datatype cb_param = SecretID | Region | Recursive
datatype cb_arg = Param cb_param string | ValueNoParam string | ParamNoValue cb_param

record builder =
  service :: cb_service
  command :: "cb_command option"
  params :: "cb_arg list"

definition NewSecretsManagerCommandBuilder :: builder where
  "NewSecretsManagerCommandBuilder = \<lparr>service = SecretsManagerService, command = None, params = []\<rparr>"

definition NewS3CommandBuilder :: builder where
  "NewS3CommandBuilder = \<lparr>service = S3Service, command = None, params = []\<rparr>"

definition SetCommand :: "cb_command \<Rightarrow> builder \<Rightarrow> builder" where
  "SetCommand c b = b\<lparr>command := Some c\<rparr>"

definition AddParam :: "cb_param \<Rightarrow> string \<Rightarrow> builder \<Rightarrow> builder" where
  "AddParam p v b = b\<lparr>params := params b @ [Param p v]\<rparr>"

definition AddValueNoParam :: "string \<Rightarrow> builder \<Rightarrow> builder" where
  "AddValueNoParam v b = b\<lparr>params := params b @ [ValueNoParam v]\<rparr>"

definition AddParamNoValue :: "cb_param \<Rightarrow> builder \<Rightarrow> builder" where
  "AddParamNoValue p b = b\<lparr>params := params b @ [ParamNoValue p]\<rparr>"

record commandbuilder =
  Build :: "builder \<Rightarrow> string"
  JoinCommands :: "string list \<Rightarrow> string"

definition deleteSecretCommand :: "string \<Rightarrow> string \<Rightarrow> builder" where
  "deleteSecretCommand privateKeySecretArn region =
     AddParam Region region
       (AddParam SecretID privateKeySecretArn
          (SetCommand DeleteSecret NewSecretsManagerCommandBuilder))"

definition emptyS3BucketCommand :: "string \<Rightarrow> builder" where
  "emptyS3BucketCommand bucketName =
     AddParamNoValue Recursive
       (AddValueNoParam (''s3://'' @ bucketName)
          (SetCommand Remove NewS3CommandBuilder))"

definition deleteS3BucketCommand :: "string \<Rightarrow> builder" where
  "deleteS3BucketCommand bucketName =
     AddValueNoParam (''s3://'' @ bucketName) (SetCommand RemoveBucket NewS3CommandBuilder)"

definition execute_manual ::
  "commandbuilder \<Rightarrow> string \<Rightarrow> OidcConfigInput \<Rightarrow> (oidc_call, unit) proc" where
  "execute_manual cb region cfg =
     (let commands = [];
          commands = commands @ [Build cb (deleteSecretCommand (PrivateKeySecretArn cfg) region)];
          commands = commands @ [Build cb (emptyS3BucketCommand (BucketName cfg))];
          commands = commands @ [Build cb (deleteS3BucketCommand (BucketName cfg))]
      in emit (Println (JoinCommands cb commands)))"

fun execute ::
  "runtime \<Rightarrow> commandbuilder \<Rightarrow> string \<Rightarrow> DeleteOidcConfigStrategy \<Rightarrow> (oidc_call, unit) proc" where
  "execute r cb region (DeleteRedHatHostedOidcConfigAutoStrategy cfg) = execute_hosted r cfg"
| "execute r cb region (DeleteOidcConfigAutoStrategy cfg) = execute_auto r cfg"
| "execute r cb region (DeleteOidcConfigManualStrategy cfg) = execute_manual cb region cfg"

text \<open>
  The reference the strategies are compared with: make the planned calls in order and
  stop at the first one that answers with an error. It returns the calls made and the
  failing call with its error, if any.
\<close>

fun first_failure ::
  "('c \<Rightarrow> string option) \<Rightarrow> 'c list \<Rightarrow> 'c list \<times> ('c \<times> string) option" where
  "first_failure answer [] = ([], None)"
| "first_failure answer (c # cs) =
     (case answer c of
        Some e \<Rightarrow> ([c], Some (c, e))
      | None \<Rightarrow> (case first_failure answer cs of (made, f) \<Rightarrow> (c # made, f)))"

fun answer_of :: "runtime \<Rightarrow> oidc_call \<Rightarrow> string option" where
  "answer_of r DeleteRedHatHostedOidcConfig = ocm_DeleteRedHatHostedOidcConfig r"
| "answer_of r (DeleteSecretInSecretsManager a) = aws_DeleteSecretInSecretsManager r a"
| "answer_of r (DeleteS3Bucket b) = aws_DeleteS3Bucket r b"
| "answer_of r (HasAClusterUsingOidcConfig b) =
     (case ocm_HasAClusterUsingOidcConfig r b of Inl e \<Rightarrow> Some e | Inr _ \<Rightarrow> None)"

fun planned_calls :: "DeleteOidcConfigStrategy \<Rightarrow> oidc_call list" where
  "planned_calls (DeleteRedHatHostedOidcConfigAutoStrategy cfg) =
     [DeleteRedHatHostedOidcConfig, DeleteSecretInSecretsManager (PrivateKeySecretArn cfg)]"
| "planned_calls (DeleteOidcConfigAutoStrategy cfg) =
     [DeleteSecretInSecretsManager (PrivateKeySecretArn cfg), DeleteS3Bucket (BucketName cfg)]"
| "planned_calls (DeleteOidcConfigManualStrategy cfg) = []"

section \<open>Route selectors of an ingress (cmd/create/ingress)\<close>

subsection \<open>The string functions used\<close>

text \<open>
  Go strings are byte sequences, here \<^typ>\<open>string\<close>. \<open>Split\<close> is \<^verbatim>\<open>strings.Split\<close> for a
  separator of one byte: it cuts at every occurrence of the separator and always
  returns at least one piece (\<^verbatim>\<open>strings.Split("", ",")\<close> is the one empty piece).
  \<open>Contains\<close> is \<^verbatim>\<open>strings.Contains\<close> for a one-byte substring. \<^verbatim>\<open>strings.TrimSpace\<close>,
  which depends on Unicode's table of white space, is an argument \<open>TrimSpace\<close> of the
  functions that use it.
\<close>

fun Split :: "string \<Rightarrow> char \<Rightarrow> string list" where
  "Split [] sep = [[]]"
| "Split (x # xs) sep =
     (if x = sep then [] # Split xs sep
      else (case Split xs sep of
              [] \<Rightarrow> [[x]]
            | piece # pieces \<Rightarrow> (x # piece) # pieces))"

definition Contains :: "string \<Rightarrow> char \<Rightarrow> bool" where
  "Contains s c = (c \<in> set s)"

fun index_opt :: "'a list \<Rightarrow> nat \<Rightarrow> 'a option" where
  \<comment> \<open>\<^verbatim>\<open>xs[i]\<close>; \<open>None\<close> where Go panics with an index out of range\<close>
  "index_opt [] i = None"
| "index_opt (x # xs) 0 = Some x"
| "index_opt (x # xs) (Suc i) = index_opt xs i"

subsection \<open>getRouteSelector\<close>

text \<open>
  The Go map under construction is an association list with one pair per key, updated
  with \<open>put\<close> (\<^verbatim>\<open>m[k] = v\<close>) and read with \<^const>\<open>map_of\<close>; \<^verbatim>\<open>len(m) > 0\<close> is \<open>m \<noteq> []\<close>.
\<close>

fun put :: "'k \<Rightarrow> 'v \<Rightarrow> ('k \<times> 'v) list \<Rightarrow> ('k \<times> 'v) list" where
  "put k v [] = [(k, v)]"
| "put k v (p # ps) = (if fst p = k then (k, v) # ps else p # put k v ps)"

text \<open>
  The function returns Go's pair of a map and an error. The map is \<open>None\<close> for the
  \<^verbatim>\<open>nil\<close> map and \<open>Some m\<close> for a map made with \<^verbatim>\<open>make\<close>; the error is \<open>None\<close> for the
  \<^verbatim>\<open>nil\<close> error. \<open>Inl\<close> is the run-time panic of an index out of range.
\<close>

datatype selector_panic = IndexOutOfRange

type_synonym route_selectors = "(string \<times> string) list option \<times> string option"

fun getRouteSelector_loop ::
  "(string \<Rightarrow> string) \<Rightarrow> string list \<Rightarrow> (string \<times> string) list
   \<Rightarrow> selector_panic + route_selectors" where
  "getRouteSelector_loop TrimSpace [] routeSelectors = Inr (Some routeSelectors, None)"
| "getRouteSelector_loop TrimSpace (labelMatch # rest) routeSelectors =
     (if \<not> Contains labelMatch (CHR ''='')
      then Inr (None, Some ''Expected key=value format for label-match'')
      else (let tokens = Split labelMatch (CHR ''='') in
            case (index_opt tokens 0, index_opt tokens 1) of
              (Some t0, Some t1) \<Rightarrow>
                getRouteSelector_loop TrimSpace rest (put (TrimSpace t0) (TrimSpace t1) routeSelectors)
            | _ \<Rightarrow> Inl IndexOutOfRange))"

definition getRouteSelector ::
  "(string \<Rightarrow> string) \<Rightarrow> string \<Rightarrow> selector_panic + route_selectors" where
  "getRouteSelector TrimSpace labelMatch =
     (let routeSelectors = [] in
      if labelMatch = [] then Inr (Some routeSelectors, None)
      else getRouteSelector_loop TrimSpace (Split labelMatch (CHR '','')) routeSelectors)"

text \<open>
  What an item of the list stands for: its key is the text before the first \<open>=\<close>, its
  value the text between the first \<open>=\<close> and the second (or the end of the item).
  \<open>selector_of\<close> is the value a list of items gives a key: that of the last item with
  this key.
\<close>

definition item_key :: "string \<Rightarrow> string" where
  "item_key item = takeWhile (\<lambda>c. c \<noteq> CHR ''='') item"

definition item_value :: "string \<Rightarrow> string" where
  "item_value item =
     takeWhile (\<lambda>c. c \<noteq> CHR ''='') (drop 1 (dropWhile (\<lambda>c. c \<noteq> CHR ''='') item))"

definition selector_of :: "(string \<Rightarrow> string) \<Rightarrow> string list \<Rightarrow> string \<Rightarrow> string option" where
  "selector_of TrimSpace items k =
     (let matching = filter (\<lambda>item. TrimSpace (item_key item) = k) items in
      if matching = [] then None else Some (TrimSpace (item_value (last matching))))"

definition put_item :: "(string \<Rightarrow> string) \<Rightarrow> (string \<times> string) list \<Rightarrow> string \<Rightarrow> (string \<times> string) list" where
  "put_item TrimSpace m item = put (TrimSpace (item_key item)) (TrimSpace (item_value item)) m"

section \<open>The commands' run functions\<close>

subsection \<open>Steps that end the process\<close>

definition or_exit :: "(string \<Rightarrow> string) \<Rightarrow> string + 'a \<Rightarrow> ('c, 'a) proc" where
  \<comment> \<open>\<^verbatim>\<open>v, err := f(); if err != nil { r.Reporter.Errorf(...err...); os.Exit(1) }\<close>\<close>
  "or_exit message res =
     (case res of Inl err \<Rightarrow> report_and_exit (message err) | Inr v \<Rightarrow> ret v)"

definition warn_and_exit :: "string \<Rightarrow> ('c, 'a) proc" where
  \<comment> \<open>\<^verbatim>\<open>r.Reporter.Warnf(...); os.Exit(1)\<close>\<close>
  "warn_and_exit msg = and_then (emit (Warnf msg)) (\<lambda>_. os_Exit 1)"

subsection \<open>delete oidc-config\<close>

definition prefixForPrivateKeySecret :: string where
  "prefixForPrivateKeySecret = ''rosa-private-key-''"

definition secretsManagerService :: string where
  "secretsManagerService = ''secretsmanager''"

definition TrimPrefix :: "string \<Rightarrow> string \<Rightarrow> string" where
  \<comment> \<open>\<^verbatim>\<open>strings.TrimPrefix\<close>\<close>
  "TrimPrefix s prefix = (if take (length prefix) s = prefix then drop (length prefix) s else s)"

fun LastIndex :: "string \<Rightarrow> char \<Rightarrow> int" where
  \<comment> \<open>\<^verbatim>\<open>strings.LastIndex\<close> for a substring of one byte: \<open>-1\<close> when it does not occur\<close>
  "LastIndex [] c = - 1"
| "LastIndex (x # xs) c =
     (let i = LastIndex xs c in
      if i \<noteq> - 1 then i + 1 else if x = c then 0 else - 1)"

text \<open>
  The fields of the parsed ARN the command reads. \<^verbatim>\<open>arn.Parse\<close> returns the zero ARN
  together with its error.
\<close>

record arn =
  arn_Service :: string
  arn_Region :: string

record oidc_args =
  args_oidcPrivateKeySecretArn :: string
  args_region :: string
  args_redHatHosted :: bool

text \<open>
  What the command's surroundings answer, one field for each function of another
  package that \<^verbatim>\<open>run\<close> and \<^verbatim>\<open>buildOidcConfigInput\<close> call (\<open>Inl\<close> is the error):
  the mode and region flags, the state of interactive mode and of the \<^verbatim>\<open>--mode\<close> flag,
  the prompts, the ARN functions, and the constants of \<^verbatim>\<open>pkg/aws\<close>.

  Modelled from the spec: \<^verbatim>\<open>oidcprovider.Cmd.Run\<close>, the command run last, is not among the
  sources. By the spec's uniform policy ("any error from validation or a remote call
  is printed to the user and the process exits immediately"), its failure, if any, is
  reported and ends the process with exit code 1.
\<close>

record oidc_env =
  aws_GetMode :: "string + string"
  aws_GetRegion :: "string + string"
  aws_Modes :: "string list"
  aws_SecretsManager :: string
  aws_ARNValidator :: "string \<Rightarrow> string option"
  aws_GetResourceIdFromSecretArn :: "string \<Rightarrow> string + string"
  arn_Parse :: "string \<Rightarrow> string + arn"
  interactive_Enabled :: bool
  mode_flag_Changed :: bool
  interactive_GetOption :: "string + string"
  interactive_GetString :: "string \<Rightarrow> string + string"
  oidcprovider_Run :: "string list \<Rightarrow> string option"

definition buildOidcConfigInput ::
  "oidc_env \<Rightarrow> runtime \<Rightarrow> oidc_args \<Rightarrow> (oidc_call, OidcConfigInput) proc" where
  "buildOidcConfigInput E r args =
     and_then (or_exit (\<lambda>err. ''There was a problem parsing secret ARN ''
                 @ quoted (args_oidcPrivateKeySecretArn args) @ '' : '' @ err)
                 (arn_Parse E (args_oidcPrivateKeySecretArn args))) (\<lambda>parsedSecretArn.
     and_then (if_then (arn_Service parsedSecretArn \<noteq> aws_SecretsManager E)
                 (report_and_exit ''Supplied secret ARN is not a valid Secrets Manager ARN'')) (\<lambda>_.
     and_then (if_then (args_region args \<noteq> arn_Region parsedSecretArn)
                 (report_and_exit (''Secret region '' @ quoted (arn_Region parsedSecretArn)
                    @ '' differs from chosen region '' @ quoted (args_region args)
                    @ '', please run the command supplying region parameter.''))) (\<lambda>_.
     and_then (or_exit (\<lambda>err. ''There was a problem parsing secret ARN ''
                 @ quoted (args_oidcPrivateKeySecretArn args) @ '' : '' @ err)
                 (aws_GetResourceIdFromSecretArn E (args_oidcPrivateKeySecretArn args)))
       (\<lambda>secretResourceName.
     (let bucketName = TrimPrefix secretResourceName prefixForPrivateKeySecret;
          bucketName =
            (if \<not> args_redHatHosted args
             then (let index = LastIndex bucketName (CHR ''-'') in
                   if index \<noteq> - 1 then take (nat index) bucketName else bucketName)
             else bucketName)
      in
     and_then (remote (HasAClusterUsingOidcConfig bucketName)
                 (ocm_HasAClusterUsingOidcConfig r bucketName)) (\<lambda>res.
     and_then (or_exit (\<lambda>err. ''There was a problem checking if any clusters are using OIDC config ''
                 @ quoted bucketName @ '' : '' @ err) res) (\<lambda>hasClusterUsingOidcConfig.
     and_then (if_then hasClusterUsingOidcConfig
                 (report_and_exit (''There are clusters using OIDC config '' @ quoted bucketName
                    @ '', can'' @ [CHR 0x27] @ ''t delete the configuration''))) (\<lambda>_.
     ret \<lparr>PrivateKeySecretArn = args_oidcPrivateKeySecretArn args,
          BucketName = bucketName\<rparr>))))))))"

definition askPrivateKeySecretArn :: "oidc_env \<Rightarrow> oidc_args \<Rightarrow> (oidc_call, oidc_args) proc" where
  \<comment> \<open>the body of \<^verbatim>\<open>if oidcPrivateKeySecretArn == "" || interactive.Enabled()\<close>\<close>
  "askPrivateKeySecretArn E args =
     and_then (or_exit (\<lambda>err. ''Expected a valid ARN to the secret containing the private key: '' @ err)
                 (interactive_GetString E (args_oidcPrivateKeySecretArn args)))
       (\<lambda>oidcPrivateKeySecretArn.
     and_then (exit_on_error [] (aws_ARNValidator E oidcPrivateKeySecretArn)) (\<lambda>_.
     (let parsedSecretArn =
            (case arn_Parse E oidcPrivateKeySecretArn of
               Inl _ \<Rightarrow> \<lparr>arn_Service = [], arn_Region = []\<rparr>
             | Inr a \<Rightarrow> a)
      in
     and_then (if_then (arn_Service parsedSecretArn \<noteq> secretsManagerService)
                 (report_and_exit ''Supplied secret ARN is not a valid Secrets Manager ARN'')) (\<lambda>_.
     ret (args\<lparr>args_oidcPrivateKeySecretArn := oidcPrivateKeySecretArn\<rparr>)))))"

definition rh_hosted_warning :: string where
  "rh_hosted_warning = ''--rh-hosted param is not supported outside --mode auto flow.''"

definition run_after_mode ::
  "oidc_env \<Rightarrow> runtime \<Rightarrow> commandbuilder \<Rightarrow> oidc_args \<Rightarrow> string \<Rightarrow> (oidc_call, unit) proc" where
  \<comment> \<open>\<^verbatim>\<open>run\<close> from the comment \<^verbatim>\<open>// Get AWS region\<close> on\<close>
  "run_after_mode E r cb args mode =
     and_then (or_exit (\<lambda>err. ''Error getting region: '' @ err) (aws_GetRegion E)) (\<lambda>region.
     (let args = args\<lparr>args_region := region\<rparr>;
          interactive = (interactive_Enabled E \<or> \<not> mode_flag_Changed E)
      in
     and_then (if interactive
               then or_exit (\<lambda>err. ''Expected a valid OIDC provider creation mode: '' @ err)
                      (interactive_GetOption E)
               else ret mode) (\<lambda>mode.
     and_then (if args_oidcPrivateKeySecretArn args = [] \<or> interactive
               then askPrivateKeySecretArn E args
               else ret args) (\<lambda>args.
     and_then (buildOidcConfigInput E r args) (\<lambda>oidcConfigInput.
     and_then (or_exit (\<lambda>err. err)
                 (getOidcConfigStrategy (aws_Modes E) (args_redHatHosted args) mode oidcConfigInput))
       (\<lambda>oidcConfigStrategy.
     and_then (execute r cb (args_region args) oidcConfigStrategy) (\<lambda>_.
     and_then (exit_on_error []
                 (oidcprovider_Run E
                    ['''', mode,
                     ''https://'' @ BucketName oidcConfigInput @ ''.s3.'' @ args_region args
                       @ ''.amazonaws.com''])) (\<lambda>_.
     emit Cleanup))))))))"

definition run :: "oidc_env \<Rightarrow> runtime \<Rightarrow> commandbuilder \<Rightarrow> oidc_args \<Rightarrow> (oidc_call, unit) proc" where
  "run E r cb args =
     and_then (or_exit (\<lambda>err. err) (aws_GetMode E)) (\<lambda>mode.
     if args_redHatHosted args \<and> mode \<noteq> ModeAuto
     then warn_and_exit rh_hosted_warning
     else run_after_mode E r cb args mode)"

subsection \<open>create ingress\<close>

datatype ClusterState = ClusterStateReady | ClusterStateOther string









subsection \<open>The exit policy\<close>




section \<open>The AWS node pool of a machine pool (cmd/create/machinepool)\<close>

text \<open>
  Modelled from the spec: \<^verbatim>\<open>createAwsNodePoolBuilder\<close> (in \<^verbatim>\<open>helper.go\<close>) and the node pool
  builder of the control-plane SDK are not among the sources; only the test that uses
  them is. The spec says that "building a node pool with given tags yields those tags
  on the result", and the test reads the instance type, the additional security group
  ids and the tags back from the built node pool. The builder is modelled as the record
  of what it was given, \<^verbatim>\<open>Build\<close> as the function that hands these on and returns no
  error. The tags are a map from keys to values.
\<close>

record AWSNodePool =
  InstanceType :: string
  AdditionalSecurityGroupIds :: "string list"
  Tags :: "string \<rightharpoonup> string"

record AWSNodePoolBuilder =
  builder_instanceType :: string
  builder_additionalSecurityGroupIds :: "string list"
  builder_tags :: "string \<rightharpoonup> string"

definition createAwsNodePoolBuilder ::
  "string \<Rightarrow> string list \<Rightarrow> (string \<rightharpoonup> string) \<Rightarrow> AWSNodePoolBuilder" where
  "createAwsNodePoolBuilder instanceType securityGroupIds awsTags =
     \<lparr>builder_instanceType = instanceType,
      builder_additionalSecurityGroupIds = securityGroupIds,
      builder_tags = awsTags\<rparr>"

definition BuildNodePool :: "AWSNodePoolBuilder \<Rightarrow> string + AWSNodePool" where
  "BuildNodePool b =
     Inr \<lparr>InstanceType = builder_instanceType b,
          AdditionalSecurityGroupIds = builder_additionalSecurityGroupIds b,
          Tags = builder_tags b\<rparr>"

section \<open>Validators of the interactive layer (pkg/interactive)\<close>

text \<open>
  A validator takes a Go \<^verbatim>\<open>interface{}\<close> value and returns an error or \<^verbatim>\<open>nil\<close>. The
  values are modelled by their dynamic type: the \<^verbatim>\<open>nil\<close> interface, a string, a
  boolean, an integer, a slice of \<^verbatim>\<open>core.OptionAnswer\<close> (value and index), and any other
  type, kept as its type's name and its text. A returned error is \<open>Some\<close> of its message.
\<close>

datatype go_value =
    GoNil
  | GoString string
  | GoBool bool
  | GoInt int
  | GoOptionAnswers "(string \<times> int) list"
  | GoOther string string

definition is_GoString :: "go_value \<Rightarrow> bool" where
  "is_GoString v = (case v of GoString _ \<Rightarrow> True | _ \<Rightarrow> False)"

definition is_GoBool :: "go_value \<Rightarrow> bool" where
  "is_GoBool v = (case v of GoBool _ \<Rightarrow> True | _ \<Rightarrow> False)"

definition is_GoOptionAnswers :: "go_value \<Rightarrow> bool" where
  "is_GoOptionAnswers v = (case v of GoOptionAnswers _ \<Rightarrow> True | _ \<Rightarrow> False)"

text \<open>
  The functions of Go's standard library and of package \<^verbatim>\<open>pkg/ocm\<close> that the validators
  call are parameters, collected in a record: the parsers answer with their error, if
  any; \<open>Sprint_v\<close> is \<^verbatim>\<open>fmt\<close>'s \<^verbatim>\<open>%v\<close>; \<open>Compile\<close> is \<^verbatim>\<open>regexp.Compile\<close> (\<open>Inl\<close> for a
  pattern that does not compile), \<open>Match\<close> is \<^verbatim>\<open>(*Regexp).MatchString\<close>; \<open>IsNotExist\<close>
  tells whether \<^verbatim>\<open>os.Stat\<close> of a path answers that the file does not exist.
\<close>

record 're library =
  ParseRequestURI :: "string \<Rightarrow> string option"
  ParseCIDR :: "string \<Rightarrow> string option"
  Sprint_v :: "go_value \<Rightarrow> string"
  Compile :: "string \<Rightarrow> string + 're"
  Match :: "'re \<Rightarrow> string \<Rightarrow> bool"
  IsNotExist :: "string \<Rightarrow> bool"
  ValidateSubnetsCount :: "bool \<Rightarrow> bool \<Rightarrow> nat \<Rightarrow> string option"
  ValidateAvailabilityZonesCount :: "bool \<Rightarrow> nat \<Rightarrow> string option"

definition doubleQuotesToRemove :: string where
  "doubleQuotesToRemove = [CHR 0x22, CHR 0x22]"

definition IsURL :: "'re library \<Rightarrow> go_value \<Rightarrow> string option" where
  "IsURL L val =
     (if val = GoNil then None
      else case val of
             GoString s \<Rightarrow> (if s = [] then None else ParseRequestURI L s)
           | _ \<Rightarrow> Some (''can only validate strings, got '' @ Sprint_v L val))"

definition certExtension :: string where
  \<comment> \<open>the pattern \<^verbatim>\<open>\.(pem|ca-bundle|ce?rt?|key)$\<close>\<close>
  "certExtension = CHR 0x5C # ''.(pem|ca-bundle|ce?rt?|key)$''"

definition IsCert :: "'re library \<Rightarrow> go_value \<Rightarrow> string option" where
  "IsCert L filepath =
     (if filepath = GoNil then None
      else case filepath of
             GoString s \<Rightarrow>
               (if s = [] then None
                else if s = doubleQuotesToRemove then None
                else case Compile L certExtension of
                       Inl err \<Rightarrow> Some err
                     | Inr re \<Rightarrow>
                         if \<not> Match L re s
                         then Some (''file '' @ quoted s @ '' does not have a valid file extension'')
                         else if \<not> IsNotExist L s then None
                         else Some (''file '' @ quoted s @ '' does not exist on the file system''))
           | _ \<Rightarrow> Some (''can only validate strings, got '' @ Sprint_v L filepath))"

definition IsCIDR :: "'re library \<Rightarrow> go_value \<Rightarrow> string option" where
  "IsCIDR L val =
     (case val of
        GoString s \<Rightarrow> (case ParseCIDR L s of Some err \<Rightarrow> Some err | None \<Rightarrow> None)
      | _ \<Rightarrow> Some (''can only validate strings, got '' @ Sprint_v L val))"

datatype validator_panic = MustCompilePanic string

definition RegExp :: "'re library \<Rightarrow> string \<Rightarrow> validator_panic + (go_value \<Rightarrow> string option)" where
  "RegExp L restr =
     (case Compile L restr of
        Inl err \<Rightarrow> Inl (MustCompilePanic err)
      | Inr re \<Rightarrow>
          Inr (\<lambda>val. case val of
                 GoString str \<Rightarrow>
                   (if str = [] then None
                    else if \<not> Match L re str
                    then Some (str @ '' does not match regular expression '' @ restr)
                    else None)
               | _ \<Rightarrow> Some (''can only validate strings, got '' @ Sprint_v L val)))"

definition RegExpBoolean :: "'re library \<Rightarrow> string \<Rightarrow> validator_panic + (go_value \<Rightarrow> string option)" where
  "RegExpBoolean L restr =
     (case Compile L restr of
        Inl err \<Rightarrow> Inl (MustCompilePanic err)
      | Inr re \<Rightarrow>
          Inr (\<lambda>val. case val of
                 GoBool boolVal \<Rightarrow>
                   (let val = (if boolVal then ''true'' else ''false'') in
                    if \<not> Match L re val
                    then Some (val @ '' does not match regular expression '' @ restr)
                    else None)
               | _ \<Rightarrow> Some (''can only validate boolean values, got '' @ Sprint_v L val)))"

definition SubnetsCountValidator :: "'re library \<Rightarrow> bool \<Rightarrow> bool \<Rightarrow> go_value \<Rightarrow> string option" where
  "SubnetsCountValidator L multiAZ privateLink input =
     (case input of
        GoOptionAnswers answers \<Rightarrow> ValidateSubnetsCount L multiAZ privateLink (length answers)
      | _ \<Rightarrow> Some (''can only validate a slice of string, got '' @ Sprint_v L input))"

definition AvailabilityZonesCountValidator :: "'re library \<Rightarrow> bool \<Rightarrow> go_value \<Rightarrow> string option" where
  "AvailabilityZonesCountValidator L multiAZ input =
     (case input of
        GoOptionAnswers answers \<Rightarrow> ValidateAvailabilityZonesCount L multiAZ (length answers)
      | _ \<Rightarrow> Some (''can only validate a slice of string, got '' @ Sprint_v L input))"

section \<open>Ranking the keys of a map (package helper)\<close>

text \<open>
  \<open>str_less\<close> is Go's \<^verbatim>\<open><\<close> on strings: bytewise lexicographic order, a proper prefix
  being smaller. \<^verbatim>\<open>a > b\<close> is \<open>str_less b a\<close>.
\<close>

fun str_less :: "string \<Rightarrow> string \<Rightarrow> bool" where
  "str_less [] [] = False"
| "str_less [] (y # ys) = True"
| "str_less (x # xs) [] = False"
| "str_less (x # xs) (y # ys) =
     (if x = y then str_less xs ys else (of_char x :: nat) < of_char y)"

record kv =
  Key :: string
  Value :: int

definition by_value :: "kv \<Rightarrow> kv \<Rightarrow> bool" where
  \<comment> \<open>the first \<^verbatim>\<open>less\<close>: \<^verbatim>\<open>ss[i].Value > ss[j].Value\<close>\<close>
  "by_value a b = (Value a > Value b)"

definition by_length_then_text :: "string \<Rightarrow> string \<Rightarrow> bool" where
  \<comment> \<open>the second \<^verbatim>\<open>less\<close>\<close>
  "by_length_then_text a b =
     (let l1 = length a; l2 = length b in
      if l1 \<noteq> l2 then l1 > l2 else str_less b a)"

fun fill_keys :: "nat \<Rightarrow> kv list \<Rightarrow> string list \<Rightarrow> string list" where
  \<comment> \<open>\<^verbatim>\<open>for i, kv := range ss { ranked[i] = kv.Key }\<close>, from index \<open>i\<close> on\<close>
  "fill_keys i [] ranked = ranked"
| "fill_keys i (kv # ss) ranked = fill_keys (Suc i) ss (ranked[i := Key kv])"

text \<open>
  The map comes as the list of its entries in the order in which this run's \<^verbatim>\<open>range\<close>
  visits them (Go leaves that order open), each key once. \<^verbatim>\<open>sort.Slice\<close> is a
  parameter, once for each element type it is used at.
\<close>

definition RankMapStringInt ::
  "((kv \<Rightarrow> kv \<Rightarrow> bool) \<Rightarrow> kv list \<Rightarrow> kv list) \<Rightarrow>
   ((string \<Rightarrow> string \<Rightarrow> bool) \<Rightarrow> string list \<Rightarrow> string list) \<Rightarrow>
   (string \<times> int) list \<Rightarrow> string list" where
  "RankMapStringInt sort_kv sort_str values =
     (let ss = map (\<lambda>(k, v). \<lparr>Key = k, Value = v\<rparr>) values;
          ss = sort_kv by_value ss;
          ranked = replicate (length values) [];
          ranked = fill_keys 0 ss ranked
      in sort_str by_length_then_text ranked)"

text \<open>
  What \<^verbatim>\<open>sort.Slice\<close> promises for a \<^verbatim>\<open>less\<close> that is a strict weak order: the
  result is a rearrangement of the slice in which no element is \<^verbatim>\<open>less\<close> than one
  before it. It does not promise stability.
\<close>

definition sorts_by :: "(('a \<Rightarrow> 'a \<Rightarrow> bool) \<Rightarrow> 'a list \<Rightarrow> 'a list) \<Rightarrow> ('a \<Rightarrow> 'a \<Rightarrow> bool) \<Rightarrow> bool" where
  "sorts_by srt lt =
     (\<forall>xs. mset (srt lt xs) = mset xs \<and> sorted_wrt (\<lambda>a b. \<not> lt b a) (srt lt xs))"

definition ranked_order :: "string \<Rightarrow> string \<Rightarrow> bool" where
  \<comment> \<open>\<open>a\<close> comes before \<open>b\<close>: longer first, among equal lengths the greater text first\<close>
  "ranked_order a b = (length a > length b \<or> (length a = length b \<and> str_less b a))"

text \<open>An insertion sort, as one instance of \<^verbatim>\<open>sort.Slice\<close>.\<close>

fun insert_by :: "('a \<Rightarrow> 'a \<Rightarrow> bool) \<Rightarrow> 'a \<Rightarrow> 'a list \<Rightarrow> 'a list" where
  "insert_by lt x [] = [x]"
| "insert_by lt x (y # ys) = (if lt x y then x # y # ys else y # insert_by lt x ys)"

definition insertion_sort :: "('a \<Rightarrow> 'a \<Rightarrow> bool) \<Rightarrow> 'a list \<Rightarrow> 'a list" where
  "insertion_sort lt xs = foldr (insert_by lt) xs []"

section \<open>Random labels (package helper)\<close>

text \<open>
  \<^verbatim>\<open>RandomLabel\<close> draws one pseudo-random number and spends it digit by digit, filling
  a byte slice from its last index down to index 0: a lowercase letter at every even
  index, a decimal digit at every odd one. Go's \<^verbatim>\<open>int\<close> is modelled as \<^typ>\<open>int\<close>
  (the loop only decreases both counters, so nothing wraps), Go's truncating \<^verbatim>\<open>/\<close> and
  \<^verbatim>\<open>%\<close> as \<open>sdiv\<close> and \<open>smod\<close>, the conversion \<^verbatim>\<open>byte(n)\<close> as reduction modulo
  256. The number drawn by \<^verbatim>\<open>rand.Int()\<close> is an explicit argument; \<^verbatim>\<open>make\<close> panics on
  a negative length.
\<close>

definition aCode :: int where "aCode = 97"
definition zCode :: int where "zCode = 122"
definition zeroCode :: int where "zeroCode = 48"
definition nineCode :: int where "nineCode = 57"
definition letterCount :: int where "letterCount = zCode - aCode + 1"
definition digitCount :: int where "digitCount = nineCode - zeroCode + 1"

definition byte :: "int \<Rightarrow> char" where
  "byte n = char_of n"

datatype panic = MakeSliceLenOutOfRange

function RandomLabel_loop :: "int \<Rightarrow> int \<Rightarrow> char list \<Rightarrow> char list" where
  "RandomLabel_loop sz value chars =
     (if sz > 0 then
        (if (sz - 1) smod 2 = 0
         then RandomLabel_loop (sz - 1) (value sdiv letterCount)
                (chars[nat (sz - 1) := byte (aCode + value smod letterCount)])
         else RandomLabel_loop (sz - 1) (value sdiv digitCount)
                (chars[nat (sz - 1) := byte (zeroCode + value smod digitCount)]))
      else chars)"
  by pat_completeness auto
termination
  by (relation "measure (\<lambda>(sz, value, chars). nat sz)") auto

definition RandomLabel :: "int \<Rightarrow> int \<Rightarrow> panic + string" where
  "RandomLabel value sz =
     (if sz < 0 then Inl MakeSliceLenOutOfRange
      else Inr (RandomLabel_loop sz value (replicate (nat sz) (byte 0))))"

definition is_lower_letter :: "char \<Rightarrow> bool" where
  "is_lower_letter c = (of_char (CHR ''a'') \<le> (of_char c :: int) \<and> (of_char c :: int) \<le> of_char (CHR ''z''))"
definition is_decimal_digit :: "char \<Rightarrow> bool" where
  "is_decimal_digit c = (of_char (CHR ''0'') \<le> (of_char c :: int) \<and> (of_char c :: int) \<le> of_char (CHR ''9''))"

definition label_shape :: "nat \<Rightarrow> char list \<Rightarrow> bool" where
  "label_shape n cs =
     (\<forall>i<n. (even i \<longrightarrow> is_lower_letter (cs ! i)) \<and> (odd i \<longrightarrow> is_decimal_digit (cs ! i)))"

section \<open>Sample inputs\<close>

definition quiet_runtime :: runtime where
  "quiet_runtime =
     \<lparr>IsTerminal = False,
      ocm_DeleteRedHatHostedOidcConfig = None,
      aws_DeleteSecretInSecretsManager = (\<lambda>_. None),
      aws_DeleteS3Bucket = (\<lambda>_. Some ''AccessDenied''),
      ocm_HasAClusterUsingOidcConfig = (\<lambda>_. Inr False)\<rparr>"

definition plain_commandbuilder :: commandbuilder where
  "plain_commandbuilder = \<lparr>Build = (\<lambda>b. ''aws''), JoinCommands = concat\<rparr>"

definition sample_library :: "string library" where
  \<comment> \<open>a library whose parsers accept exactly the strings starting with a slash, and
     whose patterns match the strings that end with them\<close>
  "sample_library =
     \<lparr>ParseRequestURI = (\<lambda>s. if take 1 s = ''/'' then None else Some ''invalid URI for request''),
      ParseCIDR = (\<lambda>s. if take 1 s = ''/'' then None else Some ''invalid CIDR address''),
      Sprint_v = (\<lambda>v. ''value''),
      Compile = (\<lambda>p. Inr p),
      Match = (\<lambda>re s. drop (length s - length re) s = re),
      IsNotExist = (\<lambda>p. False),
      ValidateSubnetsCount = (\<lambda>multiAZ privateLink n. None),
      ValidateAvailabilityZonesCount = (\<lambda>multiAZ n. None)\<rparr>"





section \<open>Properties of the OIDC configuration strategies\<close>

text \<open>
  Claim C1. For every mode string and every value of the ownership flag
  (\<^verbatim>\<open>--rh-hosted\<close>), \<open>getOidcConfigStrategy\<close> selects exactly one of three strategies:
  the Red Hat hosted one whenever the flag is set, whatever the mode; otherwise the
  automatic one for mode \<open>auto\<close> and the manual one for mode \<open>manual\<close>; for any other
  mode it returns no strategy and an error naming the allowed modes.
\<close>

theorem getOidcConfigStrategy_selects:
  "(redHatHosted \<longrightarrow>
      getOidcConfigStrategy modes redHatHosted mode input =
        Inr (DeleteRedHatHostedOidcConfigAutoStrategy input)) \<and>
   (\<not> redHatHosted \<and> mode = ''auto'' \<longrightarrow>
      getOidcConfigStrategy modes redHatHosted mode input =
        Inr (DeleteOidcConfigAutoStrategy input)) \<and>
   (\<not> redHatHosted \<and> mode = ''manual'' \<longrightarrow>
      getOidcConfigStrategy modes redHatHosted mode input =
        Inr (DeleteOidcConfigManualStrategy input)) \<and>
   (\<not> redHatHosted \<and> mode \<noteq> ''auto'' \<and> mode \<noteq> ''manual'' \<longrightarrow>
      getOidcConfigStrategy modes redHatHosted mode input =
        Inl (''Invalid mode. Allowed values are '' @ fmt_strings modes))"
  by (simp add: getOidcConfigStrategy_def ModeAuto_def ModeManual_def)

theorem getOidcConfigStrategy_selects_witness:
  "getOidcConfigStrategy [''auto'', ''manual''] True ''manual'' \<lparr>PrivateKeySecretArn = ''a'', BucketName = ''b''\<rparr> =
     Inr (DeleteRedHatHostedOidcConfigAutoStrategy \<lparr>PrivateKeySecretArn = ''a'', BucketName = ''b''\<rparr>) \<and>
   getOidcConfigStrategy [''auto'', ''manual''] False ''auto'' \<lparr>PrivateKeySecretArn = ''a'', BucketName = ''b''\<rparr> =
     Inr (DeleteOidcConfigAutoStrategy \<lparr>PrivateKeySecretArn = ''a'', BucketName = ''b''\<rparr>) \<and>
   getOidcConfigStrategy [''auto'', ''manual''] False ''manual'' \<lparr>PrivateKeySecretArn = ''a'', BucketName = ''b''\<rparr> =
     Inr (DeleteOidcConfigManualStrategy \<lparr>PrivateKeySecretArn = ''a'', BucketName = ''b''\<rparr>) \<and>
   getOidcConfigStrategy [''auto'', ''manual''] False ''hosted'' \<lparr>PrivateKeySecretArn = ''a'', BucketName = ''b''\<rparr> =
     Inl ''Invalid mode. Allowed values are [auto manual]''"
  using getOidcConfigStrategy_selects [of True "[''auto'', ''manual'']" "''manual''" "\<lparr>PrivateKeySecretArn = ''a'', BucketName = ''b''\<rparr>"]
    getOidcConfigStrategy_selects [of False "[''auto'', ''manual'']" "''auto''" "\<lparr>PrivateKeySecretArn = ''a'', BucketName = ''b''\<rparr>"]
    getOidcConfigStrategy_selects [of False "[''auto'', ''manual'']" "''manual''" "\<lparr>PrivateKeySecretArn = ''a'', BucketName = ''b''\<rparr>"]
    getOidcConfigStrategy_selects [of False "[''auto'', ''manual'']" "''hosted''" "\<lparr>PrivateKeySecretArn = ''a'', BucketName = ''b''\<rparr>"]
  by (simp add: fmt_strings_def)

lemmas proc_defs =
  and_then_def emit_def ret_def os_Exit_def remote_def if_then_def
  report_and_exit_def exit_on_error_def

lemma first_failure_initial:
  "fst (first_failure answer cs) = take (length (fst (first_failure answer cs))) cs"
  by (induction cs) (auto split: option.splits prod.splits)

lemma execute_hosted_cases:
  "execute_hosted r cfg =
     (let pre = (if IsTerminal r
                 then [Infof ''Deleting Red Hat hosted OIDC configuration'', SpinnerStart] else []);
          post = (if IsTerminal r then [SpinnerStop, Infof ''Deleted OIDC configuration''] else [])
      in case ocm_DeleteRedHatHostedOidcConfig r of
           Some e \<Rightarrow>
             (pre @ [Call DeleteRedHatHostedOidcConfig,
                     Errorf (''There was a problem deleting Red Hat Hosted OIDC Configuration: '' @ e)],
              Inl 1)
         | None \<Rightarrow>
            (case aws_DeleteSecretInSecretsManager r (PrivateKeySecretArn cfg) of
               Some e \<Rightarrow>
                 (pre @ [Call DeleteRedHatHostedOidcConfig,
                         Call (DeleteSecretInSecretsManager (PrivateKeySecretArn cfg)),
                         Errorf (''There was a problem deleting private key from secrets manager: '' @ e)],
                  Inl 1)
             | None \<Rightarrow>
                 (pre @ [Call DeleteRedHatHostedOidcConfig,
                         Call (DeleteSecretInSecretsManager (PrivateKeySecretArn cfg))] @ post,
                  Inr ())))"
  by (simp add: execute_hosted_def proc_defs split: option.splits)

lemma execute_auto_cases:
  "execute_auto r cfg =
     (let pre = (if IsTerminal r
                 then [Infof (''Deleting OIDC configuration '' @ quoted (BucketName cfg)), SpinnerStart]
                 else []);
          post = (if IsTerminal r then [SpinnerStop, Infof ''Deleted OIDC configuration''] else [])
      in case aws_DeleteSecretInSecretsManager r (PrivateKeySecretArn cfg) of
           Some e \<Rightarrow>
             (pre @ [Call (DeleteSecretInSecretsManager (PrivateKeySecretArn cfg)),
                     Errorf (''There was a problem deleting private key from secrets manager: '' @ e)],
              Inl 1)
         | None \<Rightarrow>
            (case aws_DeleteS3Bucket r (BucketName cfg) of
               Some e \<Rightarrow>
                 (pre @ [Call (DeleteSecretInSecretsManager (PrivateKeySecretArn cfg)),
                         Call (DeleteS3Bucket (BucketName cfg)),
                         Errorf (''There was a problem deleting S3 bucket '' @ quoted (BucketName cfg)
                                 @ '': '' @ e)],
                  Inl 1)
             | None \<Rightarrow>
                 (pre @ [Call (DeleteSecretInSecretsManager (PrivateKeySecretArn cfg)),
                         Call (DeleteS3Bucket (BucketName cfg))] @ post,
                  Inr ())))"
  by (simp add: execute_auto_def proc_defs split: option.splits)

lemma execute_manual_cases:
  "execute_manual cb region cfg =
     ([Println (JoinCommands cb
         [Build cb (deleteSecretCommand (PrivateKeySecretArn cfg) region),
          Build cb (emptyS3BucketCommand (BucketName cfg)),
          Build cb (deleteS3BucketCommand (BucketName cfg))])], Inr ())"
  by (simp add: execute_manual_def emit_def)

text \<open>
  Claim C2. Every strategy makes its remote calls in a fixed order, at most three of
  them (hosted: delete the control-plane OIDC configuration, then the private-key
  secret; automatic: delete the private-key secret, then the S3 bucket). At the first
  call that fails it reports the error and ends the process: no further call, no retry,
  no call undoing an earlier one.
\<close>

theorem execute_stops_at_first_failure:
  "planned_calls (DeleteRedHatHostedOidcConfigAutoStrategy cfg) =
     [DeleteRedHatHostedOidcConfig, DeleteSecretInSecretsManager (PrivateKeySecretArn cfg)] \<and>
   planned_calls (DeleteOidcConfigAutoStrategy cfg) =
     [DeleteSecretInSecretsManager (PrivateKeySecretArn cfg), DeleteS3Bucket (BucketName cfg)] \<and>
   length (planned_calls s) \<le> 3 \<and>
   calls_of (fst (execute r cb region s)) = fst (first_failure (answer_of r) (planned_calls s)) \<and>
   calls_of (fst (execute r cb region s)) =
     take (length (calls_of (fst (execute r cb region s)))) (planned_calls s) \<and>
   (snd (first_failure (answer_of r) (planned_calls s)) = None \<longrightarrow>
      snd (execute r cb region s) = Inr () \<and>
      \<not> list_ex is_Errorf (fst (execute r cb region s))) \<and>
   (\<forall>c e. snd (first_failure (answer_of r) (planned_calls s)) = Some (c, e) \<longrightarrow>
      snd (execute r cb region s) = Inl 1 \<and>
      (\<exists>prefix. last (fst (execute r cb region s)) = Errorf (prefix @ e)) \<and>
      length (filter is_Errorf (fst (execute r cb region s))) = 1 \<and>
      last (calls_of (fst (execute r cb region s))) = c \<and>
      count_list (calls_of (fst (execute r cb region s))) c = 1)"
proof -
  have made: "calls_of (fst (execute r cb region s)) =
              fst (first_failure (answer_of r) (planned_calls s))"
    by (cases s)
       (simp_all add: execute_hosted_cases execute_auto_cases execute_manual_cases Let_def
          split: option.splits)
  have ok: "snd (first_failure (answer_of r) (planned_calls s)) = None \<longrightarrow>
      snd (execute r cb region s) = Inr () \<and>
      \<not> list_ex is_Errorf (fst (execute r cb region s))"
    by (cases s)
       (simp_all add: execute_hosted_cases execute_auto_cases execute_manual_cases Let_def
          is_Errorf_def split: option.splits)
  have failed: "\<forall>c e. snd (first_failure (answer_of r) (planned_calls s)) = Some (c, e) \<longrightarrow>
      snd (execute r cb region s) = Inl 1 \<and>
      (\<exists>prefix. last (fst (execute r cb region s)) = Errorf (prefix @ e)) \<and>
      length (filter is_Errorf (fst (execute r cb region s))) = 1 \<and>
      last (calls_of (fst (execute r cb region s))) = c \<and>
      count_list (calls_of (fst (execute r cb region s))) c = 1"
    by (cases s)
       (auto simp add: execute_hosted_cases execute_auto_cases execute_manual_cases Let_def
          is_Errorf_def split: option.splits)
  have len: "length (planned_calls s) \<le> 3" by (cases s) simp_all
  show ?thesis
    using made ok failed len first_failure_initial [of "answer_of r" "planned_calls s"]
    by simp
qed

theorem execute_stops_at_first_failure_witness:
  "snd (first_failure (answer_of quiet_runtime)
          (planned_calls (DeleteRedHatHostedOidcConfigAutoStrategy
             \<lparr>PrivateKeySecretArn = ''arn'', BucketName = ''bucket''\<rparr>))) = None \<and>
   execute quiet_runtime plain_commandbuilder ''us-east-1''
     (DeleteRedHatHostedOidcConfigAutoStrategy \<lparr>PrivateKeySecretArn = ''arn'', BucketName = ''bucket''\<rparr>) =
     ([Call DeleteRedHatHostedOidcConfig, Call (DeleteSecretInSecretsManager ''arn'')], Inr ()) \<and>
   snd (first_failure (answer_of quiet_runtime)
          (planned_calls (DeleteOidcConfigAutoStrategy
             \<lparr>PrivateKeySecretArn = ''arn'', BucketName = ''bucket''\<rparr>))) =
     Some (DeleteS3Bucket ''bucket'', ''AccessDenied'') \<and>
   snd (execute quiet_runtime plain_commandbuilder ''us-east-1''
     (DeleteOidcConfigAutoStrategy \<lparr>PrivateKeySecretArn = ''arn'', BucketName = ''bucket''\<rparr>)) = Inl 1 \<and>
   calls_of (fst (execute quiet_runtime plain_commandbuilder ''us-east-1''
     (DeleteOidcConfigAutoStrategy \<lparr>PrivateKeySecretArn = ''arn'', BucketName = ''bucket''\<rparr>))) =
     [DeleteSecretInSecretsManager ''arn'', DeleteS3Bucket ''bucket'']"
  using execute_stops_at_first_failure
          [of "\<lparr>PrivateKeySecretArn = ''arn'', BucketName = ''bucket''\<rparr>"
              "DeleteRedHatHostedOidcConfigAutoStrategy \<lparr>PrivateKeySecretArn = ''arn'', BucketName = ''bucket''\<rparr>"
              quiet_runtime plain_commandbuilder "''us-east-1''"]
        execute_stops_at_first_failure
          [of "\<lparr>PrivateKeySecretArn = ''arn'', BucketName = ''bucket''\<rparr>"
              "DeleteOidcConfigAutoStrategy \<lparr>PrivateKeySecretArn = ''arn'', BucketName = ''bucket''\<rparr>"
              quiet_runtime plain_commandbuilder "''us-east-1''"]
  by (simp add: quiet_runtime_def execute_hosted_cases execute_auto_cases Let_def)

text \<open>
  Claim C5. In manual mode the strategy makes no remote call. It prints three
  commands, in this order: delete the private-key secret in Secrets Manager (with the
  secret id and the region), remove the contents of the S3 bucket recursively, remove
  the bucket itself.
\<close>

theorem execute_manual_prints_three_commands:
  "execute r cb region (DeleteOidcConfigManualStrategy cfg) =
     ([Println (JoinCommands cb
         [Build cb \<lparr>service = SecretsManagerService, command = Some DeleteSecret,
                    params = [Param SecretID (PrivateKeySecretArn cfg), Param Region region]\<rparr>,
          Build cb \<lparr>service = S3Service, command = Some Remove,
                    params = [ValueNoParam (''s3://'' @ BucketName cfg), ParamNoValue Recursive]\<rparr>,
          Build cb \<lparr>service = S3Service, command = Some RemoveBucket,
                    params = [ValueNoParam (''s3://'' @ BucketName cfg)]\<rparr>])],
      Inr ()) \<and>
   calls_of (fst (execute r cb region (DeleteOidcConfigManualStrategy cfg))) = []"
  by (simp add: execute_manual_cases deleteSecretCommand_def emptyS3BucketCommand_def
        deleteS3BucketCommand_def NewSecretsManagerCommandBuilder_def NewS3CommandBuilder_def
        SetCommand_def AddParam_def AddValueNoParam_def AddParamNoValue_def)

section \<open>Properties of the node pool builder\<close>

text \<open>
  Claim C4. For every instance type, list of security group ids and map of tags,
  building the node pool made by \<open>createAwsNodePoolBuilder\<close> succeeds, and the
  result's instance type, additional security group ids and tags are the given
  arguments; with the empty map of tags the node pool has no tag.
\<close>

theorem createAwsNodePoolBuilder_builds:
  "(\<exists>awsNodePool.
      BuildNodePool (createAwsNodePoolBuilder instanceType securityGroupIds awsTags) = Inr awsNodePool \<and>
      InstanceType awsNodePool = instanceType \<and>
      AdditionalSecurityGroupIds awsNodePool = securityGroupIds \<and>
      Tags awsNodePool = awsTags) \<and>
   (\<exists>awsNodePool.
      BuildNodePool (createAwsNodePoolBuilder instanceType securityGroupIds Map.empty) = Inr awsNodePool \<and>
      card (dom (Tags awsNodePool)) = 0)"
  by (simp add: BuildNodePool_def createAwsNodePoolBuilder_def)

section \<open>Properties of the validators\<close>

lemma IsURL_wrong_type: "v \<noteq> GoNil \<Longrightarrow> \<not> is_GoString v \<Longrightarrow> IsURL L v \<noteq> None"
  by (cases v) (simp_all add: IsURL_def is_GoString_def)

lemma IsCert_wrong_type: "v \<noteq> GoNil \<Longrightarrow> \<not> is_GoString v \<Longrightarrow> IsCert L v \<noteq> None"
  by (cases v) (simp_all add: IsCert_def is_GoString_def)

lemma IsCIDR_wrong_type: "\<not> is_GoString v \<Longrightarrow> IsCIDR L v \<noteq> None"
  by (cases v) (simp_all add: IsCIDR_def is_GoString_def)

lemma RegExp_wrong_type: "RegExp L restr = Inr validate \<Longrightarrow> \<not> is_GoString v \<Longrightarrow> validate v \<noteq> None"
  by (cases v) (auto simp: RegExp_def is_GoString_def split: sum.splits)

lemma RegExpBoolean_wrong_type:
  "RegExpBoolean L restr = Inr validate \<Longrightarrow> \<not> is_GoBool v \<Longrightarrow> validate v \<noteq> None"
  by (cases v) (auto simp: RegExpBoolean_def is_GoBool_def split: sum.splits)

lemma CountValidators_wrong_type:
  "\<not> is_GoOptionAnswers v \<Longrightarrow>
   SubnetsCountValidator L multiAZ privateLink v \<noteq> None \<and>
   AvailabilityZonesCountValidator L multiAZ v \<noteq> None"
  by (cases v)
     (simp_all add: SubnetsCountValidator_def AvailabilityZonesCountValidator_def
        is_GoOptionAnswers_def)

text \<open>
  Claim C6, as amended. Every validator returns an error for every value other than
  \<^verbatim>\<open>nil\<close> that is not of its expected dynamic type; \<open>IsCIDR\<close>, the regular-expression
  validators and the count validators return an error for \<^verbatim>\<open>nil\<close> too, while \<open>IsURL\<close>
  and \<open>IsCert\<close> accept \<^verbatim>\<open>nil\<close>. \<open>IsURL\<close> accepts the empty string and otherwise exactly
  the strings that parse as request URIs (it returns the parser's error). \<open>IsCIDR\<close> has
  no exemption for the empty string: on every string it returns the CIDR parser's
  error.
\<close>

theorem validators_reject_wrong_types:
  "(v \<noteq> GoNil \<and> \<not> is_GoString v \<longrightarrow> IsURL L v \<noteq> None \<and> IsCert L v \<noteq> None) \<and>
   (\<not> is_GoString v \<longrightarrow> IsCIDR L v \<noteq> None) \<and>
   (\<forall>validate. RegExp L restr = Inr validate \<and> \<not> is_GoString v \<longrightarrow> validate v \<noteq> None) \<and>
   (\<forall>validate. RegExpBoolean L restr = Inr validate \<and> \<not> is_GoBool v \<longrightarrow> validate v \<noteq> None) \<and>
   (\<not> is_GoOptionAnswers v \<longrightarrow>
      SubnetsCountValidator L multiAZ privateLink v \<noteq> None \<and>
      AvailabilityZonesCountValidator L multiAZ v \<noteq> None) \<and>
   IsURL L GoNil = None \<and> IsCert L GoNil = None \<and>
   IsURL L (GoString []) = None \<and>
   (s \<noteq> [] \<longrightarrow> IsURL L (GoString s) = ParseRequestURI L s) \<and>
   IsCIDR L (GoString s) = ParseCIDR L s \<and>
   IsCIDR L (GoString []) = ParseCIDR L []"
proof -
  have url: "IsURL L GoNil = None" "IsURL L (GoString []) = None"
    "s \<noteq> [] \<longrightarrow> IsURL L (GoString s) = ParseRequestURI L s"
    by (simp_all add: IsURL_def)
  have cert: "IsCert L GoNil = None" by (simp add: IsCert_def)
  have cidr: "IsCIDR L (GoString t) = ParseCIDR L t" for t
    by (simp add: IsCIDR_def split: option.splits)
  show ?thesis
    using url cert cidr IsURL_wrong_type [of v L] IsCert_wrong_type [of v L]
      IsCIDR_wrong_type [of v L] RegExp_wrong_type [of L restr _ v]
      RegExpBoolean_wrong_type [of L restr _ v]
      CountValidators_wrong_type [of v L multiAZ privateLink]
    by blast
qed

theorem validators_reject_wrong_types_witness:
  "GoInt 7 \<noteq> GoNil \<and> \<not> is_GoString (GoInt 7) \<and> \<not> is_GoBool (GoInt 7) \<and>
   \<not> is_GoOptionAnswers (GoInt 7) \<and>
   IsURL sample_library (GoInt 7) = Some ''can only validate strings, got value'' \<and>
   IsCert sample_library (GoInt 7) \<noteq> None \<and>
   IsCIDR sample_library (GoInt 7) \<noteq> None \<and>
   (\<exists>validate. RegExp sample_library ''x'' = Inr validate \<and> validate (GoInt 7) \<noteq> None) \<and>
   (\<exists>validate. RegExpBoolean sample_library ''true'' = Inr validate \<and> validate (GoInt 7) \<noteq> None) \<and>
   SubnetsCountValidator sample_library True False (GoInt 7) \<noteq> None \<and>
   ''/v1'' \<noteq> [] \<and> IsURL sample_library (GoString ''/v1'') = None \<and>
   IsCIDR sample_library (GoString '''') = Some ''invalid CIDR address''"
proof -
  note t = validators_reject_wrong_types
             [of "GoInt 7" sample_library "''x''" True False "''/v1''"]
  note b = validators_reject_wrong_types
             [of "GoInt 7" sample_library "''true''" True False "''/v1''"]
  have types: "GoInt 7 \<noteq> GoNil" "\<not> is_GoString (GoInt 7)" "\<not> is_GoBool (GoInt 7)"
    "\<not> is_GoOptionAnswers (GoInt 7)"
    by (simp_all add: is_GoString_def is_GoBool_def is_GoOptionAnswers_def)
  obtain re where re: "RegExp sample_library ''x'' = Inr re"
    by (simp add: RegExp_def sample_library_def)
  obtain rb where rb: "RegExpBoolean sample_library ''true'' = Inr rb"
    by (simp add: RegExpBoolean_def sample_library_def)
  have "re (GoInt 7) \<noteq> None" using t re types by blast
  moreover have "rb (GoInt 7) \<noteq> None" using b rb types by blast
  moreover have "IsURL sample_library (GoInt 7) = Some ''can only validate strings, got value''"
    by (simp add: IsURL_def sample_library_def)
  moreover have "IsURL sample_library (GoString ''/v1'') = None"
    using t by (simp add: sample_library_def)
  moreover have "IsCIDR sample_library (GoString '''') = Some ''invalid CIDR address''"
    using t by (simp add: sample_library_def)
  ultimately show ?thesis using t types re rb by blast
qed

text \<open>
  As first stated, the claim has every validator return an error for every value that
  is not of its expected type. \<open>IsCert\<close> expects a string and accepts \<^verbatim>\<open>nil\<close>.
\<close>

theorem IsCert_nil_counterexample:
  "\<not> is_GoString GoNil \<and> IsCert sample_library GoNil = None"
  by (simp add: is_GoString_def IsCert_def)

section \<open>Properties of RankMapStringInt\<close>

lemma str_less_irrefl: "\<not> str_less a a"
  by (induction a) simp_all

lemma str_less_asym: "str_less a b \<Longrightarrow> \<not> str_less b a"
  by (induction a b rule: str_less.induct) (auto split: if_splits)

lemma str_less_total: "a \<noteq> b \<Longrightarrow> str_less a b \<or> str_less b a"
proof (induction a b rule: str_less.induct)
  case (4 x xs y ys)
  show ?case
  proof (cases "x = y")
    case True
    then show ?thesis using 4 by simp
  next
    case False
    then have "(of_char x :: nat) \<noteq> of_char y" by simp
    then have "(of_char x :: nat) < of_char y \<or> (of_char y :: nat) < of_char x"
      by linarith
    then show ?thesis using False by auto
  qed
qed simp_all

lemma str_less_trans: "str_less a b \<Longrightarrow> str_less b c \<Longrightarrow> str_less a c"
proof (induction a b arbitrary: c rule: str_less.induct)
  case (2 y ys)
  then show ?case by (cases c) simp_all
next
  case (4 x xs y ys)
  then obtain z zs where c: "c = z # zs" by (cases c) auto
  show ?case
  proof (cases "x = y")
    case xy: True
    show ?thesis
    proof (cases "y = z")
      case True
      then show ?thesis using 4 xy c by simp
    next
      case False
      then show ?thesis using 4 xy c by simp
    qed
  next
    case xy: False
    show ?thesis
    proof (cases "y = z")
      case True
      then show ?thesis using 4 xy c by simp
    next
      case False
      then have "(of_char x :: nat) < of_char z" using 4 xy c by simp
      then show ?thesis using c by auto
    qed
  qed
qed simp_all

lemma ranked_order_eq: "by_length_then_text a b = ranked_order a b"
  by (auto simp: by_length_then_text_def ranked_order_def Let_def)

lemma ranked_order_asym: "ranked_order a b \<Longrightarrow> \<not> ranked_order b a"
  by (auto simp: ranked_order_def dest: str_less_asym)

lemma ranked_order_total: "a \<noteq> b \<Longrightarrow> ranked_order a b \<or> ranked_order b a"
  using str_less_total [of a b] by (auto simp: ranked_order_def)

lemma ranked_order_trans: "ranked_order a b \<Longrightarrow> ranked_order b c \<Longrightarrow> ranked_order a c"
  by (auto simp: ranked_order_def dest: str_less_trans)

lemma fill_keys_eq:
  "i + length ss \<le> length ranked \<Longrightarrow>
   fill_keys i ss ranked = take i ranked @ map Key ss @ drop (i + length ss) ranked"
proof (induction ss arbitrary: i ranked)
  case Nil
  show ?case by simp
next
  case (Cons kv ss)
  have i: "i < length ranked" using Cons.prems by simp
  have "fill_keys i (kv # ss) ranked = fill_keys (Suc i) ss (ranked[i := Key kv])" by simp
  also have "\<dots> = take (Suc i) (ranked[i := Key kv]) @ map Key ss
                    @ drop (Suc i + length ss) (ranked[i := Key kv])"
    using Cons.prems by (intro Cons.IH) simp
  also have "take (Suc i) (ranked[i := Key kv]) = take i ranked @ [Key kv]"
    using i by (simp add: take_Suc_conv_app_nth)
  also have "drop (Suc i + length ss) (ranked[i := Key kv]) = drop (i + length (kv # ss)) ranked"
    by simp
  finally show ?case by simp
qed

lemma fill_keys_all: "length ss = n \<Longrightarrow> fill_keys 0 ss (replicate n []) = map Key ss"
  using fill_keys_eq [of 0 ss "replicate n []"] by simp

lemma sorted_wrt_strict:
  "sorted_wrt (\<lambda>a b. \<not> ranked_order b a) xs \<Longrightarrow> distinct xs \<Longrightarrow> sorted_wrt ranked_order xs"
proof (induction xs)
  case Nil
  show ?case by simp
next
  case (Cons x xs)
  have "ranked_order x y" if "y \<in> set xs" for y
  proof -
    have "\<not> ranked_order y x" using Cons.prems(1) that by simp
    moreover have "x \<noteq> y" using Cons.prems(2) that by auto
    ultimately show ?thesis using ranked_order_total by blast
  qed
  moreover have "sorted_wrt ranked_order xs" using Cons by simp
  ultimately show ?case by simp
qed

lemma sorted_wrt_unique:
  "sorted_wrt ranked_order xs \<Longrightarrow> sorted_wrt ranked_order ys \<Longrightarrow>
   distinct xs \<Longrightarrow> distinct ys \<Longrightarrow> set xs = set ys \<Longrightarrow> xs = ys"
proof (induction xs arbitrary: ys)
  case Nil
  then show ?case by simp
next
  case (Cons x xs)
  then obtain y ys' where ys: "ys = y # ys'" by (cases ys) auto
  have xy: "x = y"
  proof (rule ccontr)
    assume ne: "x \<noteq> y"
    then have "x \<in> set ys'" using Cons.prems(5) ys by auto
    then have 1: "ranked_order y x" using Cons.prems(2) ys by auto
    have "y \<in> set xs" using ne Cons.prems(5) ys by auto
    then have "ranked_order x y" using Cons.prems(1) by auto
    then show False using 1 ranked_order_asym by blast
  qed
  have "set xs = set ys'"
    using Cons.prems(3,4,5) ys xy by auto
  then have "xs = ys'"
    using Cons.prems ys by (intro Cons.IH) auto
  then show ?case using xy ys by simp
qed

lemma RankMapStringInt_eq:
  assumes "sorts_by sort_kv by_value"
  shows "RankMapStringInt sort_kv sort_str values =
         sort_str by_length_then_text
           (map Key (sort_kv by_value (map (\<lambda>(k, v). \<lparr>Key = k, Value = v\<rparr>) values)))"
proof -
  let ?ss = "sort_kv by_value (map (\<lambda>(k, v). \<lparr>Key = k, Value = v\<rparr>) values)"
  have "mset ?ss = mset (map (\<lambda>(k, v). \<lparr>Key = k, Value = v\<rparr>) values)"
    using assms by (simp add: sorts_by_def)
  then have "length ?ss = length values"
    by (metis length_map size_mset)
  then show ?thesis
    by (simp add: RankMapStringInt_def Let_def fill_keys_all)
qed

lemma RankMapStringInt_mset:
  assumes "sorts_by sort_kv by_value" and "sorts_by sort_str by_length_then_text"
  shows "mset (RankMapStringInt sort_kv sort_str values) = mset (map fst values)"
proof -
  let ?mk = "\<lambda>(k, v). \<lparr>Key = k, Value = v\<rparr>"
  let ?ss = "sort_kv by_value (map ?mk values)"
  have "mset (RankMapStringInt sort_kv sort_str values) = mset (map Key ?ss)"
    using assms(2) by (simp add: RankMapStringInt_eq [OF assms(1)] sorts_by_def)
  also have "\<dots> = image_mset Key (mset ?ss)" by simp
  also have "mset ?ss = mset (map ?mk values)" using assms(1) by (simp add: sorts_by_def)
  also have "image_mset Key (mset (map ?mk values)) = mset (map (Key \<circ> ?mk) values)"
    by (simp only: mset_map [symmetric] map_map)
  also have "Key \<circ> ?mk = fst" by (auto simp: fun_eq_iff)
  finally show ?thesis .
qed

lemma RankMapStringInt_sorted:
  assumes "sorts_by sort_kv by_value" and "sorts_by sort_str by_length_then_text"
    and "distinct (map fst values)"
  shows "sorted_wrt ranked_order (RankMapStringInt sort_kv sort_str values)"
    and "distinct (RankMapStringInt sort_kv sort_str values)"
proof -
  let ?r = "RankMapStringInt sort_kv sort_str values"
  have ms: "mset ?r = mset (map fst values)"
    using assms(1,2) by (rule RankMapStringInt_mset)
  show d: "distinct ?r"
    using assms(3) ms by (metis mset_eq_imp_distinct_iff)
  have "sorted_wrt (\<lambda>a b. \<not> by_length_then_text b a) ?r"
    using assms(2) by (simp add: RankMapStringInt_eq [OF assms(1)] sorts_by_def)
  then have "sorted_wrt (\<lambda>a b. \<not> ranked_order b a) ?r"
    by (simp add: ranked_order_eq)
  then show "sorted_wrt ranked_order ?r" using d by (rule sorted_wrt_strict)
qed

text \<open>
  Claim C7. For every input map, \<open>RankMapStringInt\<close> returns a rearrangement of the
  map's keys in which longer keys come first and keys of equal length are in
  decreasing lexicographic order. The integer values have no effect on the result: a
  map with the same keys and any values (visited in any order, sorted by any correct
  \<^verbatim>\<open>sort.Slice\<close>) gives the same list.
\<close>

theorem RankMapStringInt_ranks_keys:
  assumes "distinct (map fst values)"
    and "sorts_by sort_kv by_value" and "sorts_by sort_str by_length_then_text"
    and "distinct (map fst values')" and "set (map fst values') = set (map fst values)"
    and "sorts_by sort_kv' by_value" and "sorts_by sort_str' by_length_then_text"
  shows "mset (RankMapStringInt sort_kv sort_str values) = mset (map fst values) \<and>
         sorted_wrt (\<lambda>a b. length a > length b \<or> (length a = length b \<and> str_less b a))
           (RankMapStringInt sort_kv sort_str values) \<and>
         RankMapStringInt sort_kv' sort_str' values' = RankMapStringInt sort_kv sort_str values"
proof -
  let ?r = "RankMapStringInt sort_kv sort_str values"
  let ?r' = "RankMapStringInt sort_kv' sort_str' values'"
  have ms: "mset ?r = mset (map fst values)"
    using assms(2,3) by (rule RankMapStringInt_mset)
  have ms': "mset ?r' = mset (map fst values')"
    using assms(6,7) by (rule RankMapStringInt_mset)
  have s: "sorted_wrt ranked_order ?r" and d: "distinct ?r"
    using assms(2,3,1) by (rule RankMapStringInt_sorted)+
  have s': "sorted_wrt ranked_order ?r'" and d': "distinct ?r'"
    using assms(6,7,4) by (rule RankMapStringInt_sorted)+
  have "set ?r' = set ?r"
    using ms ms' assms(5) by (metis set_mset_mset)
  then have same: "?r' = ?r"
    using s' s d' d by (intro sorted_wrt_unique)
  have "sorted_wrt (\<lambda>a b. length a > length b \<or> (length a = length b \<and> str_less b a)) ?r"
    using s unfolding ranked_order_def [abs_def] .
  then show ?thesis using ms same by simp
qed

lemma set_insert_by: "set (insert_by lt x ys) = insert x (set ys)"
  by (induction ys) auto

lemma mset_insert_by: "mset (insert_by lt x ys) = add_mset x (mset ys)"
  by (induction ys) auto

lemma mset_insertion_sort: "mset (insertion_sort lt xs) = mset xs"
  by (induction xs) (simp_all add: insertion_sort_def mset_insert_by)

lemma sorted_insert_by:
  assumes asym: "\<And>a b. lt a b \<Longrightarrow> \<not> lt b a"
    and trans: "\<And>a b c. lt a b \<Longrightarrow> lt b c \<Longrightarrow> lt a c"
  shows "sorted_wrt (\<lambda>a b. \<not> lt b a) ys \<Longrightarrow> sorted_wrt (\<lambda>a b. \<not> lt b a) (insert_by lt x ys)"
proof (induction ys)
  case Nil
  show ?case by simp
next
  case (Cons y ys)
  show ?case
  proof (cases "lt x y")
    case True
    have "\<not> lt z x" if "z \<in> set (y # ys)" for z
    proof
      assume zx: "lt z x"
      then have zy: "lt z y" using True trans by blast
      show False
      proof (cases "z = y")
        case True
        then show ?thesis using zy asym by blast
      next
        case False
        then have "z \<in> set ys" using that by simp
        then have "\<not> lt z y" using Cons.prems by simp
        then show ?thesis using zy by simp
      qed
    qed
    then show ?thesis using True Cons.prems by simp
  next
    case False
    have "sorted_wrt (\<lambda>a b. \<not> lt b a) (insert_by lt x ys)"
      using Cons by simp
    moreover have "\<forall>z \<in> set (insert_by lt x ys). \<not> lt z y"
      using False Cons.prems by (simp add: set_insert_by)
    ultimately show ?thesis using False by simp
  qed
qed

lemma insertion_sort_sorts_by:
  assumes "\<And>a b. lt a b \<Longrightarrow> \<not> lt b a" and "\<And>a b c. lt a b \<Longrightarrow> lt b c \<Longrightarrow> lt a c"
  shows "sorts_by insertion_sort lt"
proof -
  have "sorted_wrt (\<lambda>a b. \<not> lt b a) (insertion_sort lt xs)" for xs
  proof (induction xs)
    case Nil
    show ?case by (simp add: insertion_sort_def)
  next
    case (Cons x xs)
    have "insertion_sort lt (x # xs) = insert_by lt x (insertion_sort lt xs)"
      by (simp add: insertion_sort_def)
    then show ?case using sorted_insert_by [OF assms] Cons by simp
  qed
  then show ?thesis by (simp add: sorts_by_def mset_insertion_sort)
qed

lemma insertion_sort_by_value: "sorts_by insertion_sort by_value"
  by (rule insertion_sort_sorts_by) (auto simp: by_value_def)

lemma insertion_sort_by_length_then_text: "sorts_by insertion_sort by_length_then_text"
  by (rule insertion_sort_sorts_by)
     (auto simp: ranked_order_eq dest: ranked_order_asym ranked_order_trans)

theorem RankMapStringInt_ranks_keys_witness:
  "distinct (map fst [(''bb'', 3), (''a'', 10), (''ccc'', 1), (''ba'', 7::int)]) \<and>
   sorts_by insertion_sort by_value \<and> sorts_by insertion_sort by_length_then_text \<and>
   distinct (map fst [(''a'', 0), (''ba'', 0), (''ccc'', 5), (''bb'', 5::int)]) \<and>
   set (map fst [(''a'', 0), (''ba'', 0), (''ccc'', 5), (''bb'', 5::int)]) =
     set (map fst [(''bb'', 3), (''a'', 10), (''ccc'', 1), (''ba'', 7::int)]) \<and>
   RankMapStringInt insertion_sort insertion_sort [(''bb'', 3), (''a'', 10), (''ccc'', 1), (''ba'', 7)] =
     [''ccc'', ''bb'', ''ba'', ''a''] \<and>
   RankMapStringInt insertion_sort insertion_sort [(''a'', 0), (''ba'', 0), (''ccc'', 5), (''bb'', 5)] =
     [''ccc'', ''bb'', ''ba'', ''a'']"
proof -
  have d1: "distinct (map fst [(''bb'', 3), (''a'', 10), (''ccc'', 1), (''ba'', 7::int)])"
    by simp
  have d2: "distinct (map fst [(''a'', 0), (''ba'', 0), (''ccc'', 5), (''bb'', 5::int)])"
    by simp
  have s: "set (map fst [(''a'', 0), (''ba'', 0), (''ccc'', 5), (''bb'', 5::int)]) =
           set (map fst [(''bb'', 3), (''a'', 10), (''ccc'', 1), (''ba'', 7::int)])"
    by auto
  have r: "RankMapStringInt insertion_sort insertion_sort
             [(''bb'', 3), (''a'', 10), (''ccc'', 1), (''ba'', 7)] = [''ccc'', ''bb'', ''ba'', ''a'']"
    by code_simp
  note t = RankMapStringInt_ranks_keys
             [OF d1 insertion_sort_by_value insertion_sort_by_length_then_text
                 d2 s insertion_sort_by_value insertion_sort_by_length_then_text]
  from t have "RankMapStringInt insertion_sort insertion_sort
                 [(''a'', 0), (''ba'', 0), (''ccc'', 5), (''bb'', 5)] =
               RankMapStringInt insertion_sort insertion_sort
                 [(''bb'', 3), (''a'', 10), (''ccc'', 1), (''ba'', 7)]"
    by simp
  then show ?thesis
    using d1 d2 s r insertion_sort_by_value insertion_sort_by_length_then_text by simp
qed

section \<open>Properties of getRouteSelector\<close>

lemma Split_not_Nil: "Split s sep \<noteq> []"
  by (induction s) (auto split: list.splits)

lemma Split_first: "index_opt (Split s sep) 0 = Some (takeWhile (\<lambda>c. c \<noteq> sep) s)"
proof (induction s)
  case Nil
  show ?case by simp
next
  case (Cons x xs)
  then show ?case
    using Split_not_Nil [of xs sep] by (cases "Split xs sep") auto
qed

lemma Split_second:
  "sep \<in> set s \<Longrightarrow>
   index_opt (Split s sep) 1 =
     Some (takeWhile (\<lambda>c. c \<noteq> sep) (drop 1 (dropWhile (\<lambda>c. c \<noteq> sep) s)))"
proof (induction s)
  case Nil
  then show ?case by simp
next
  case (Cons x xs)
  show ?case
  proof (cases "x = sep")
    case True
    then show ?thesis using Split_first [of xs sep] by simp
  next
    case False
    then have "sep \<in> set xs" using Cons.prems by auto
    then have ih: "index_opt (Split xs sep) 1 =
        Some (takeWhile (\<lambda>c. c \<noteq> sep) (drop 1 (dropWhile (\<lambda>c. c \<noteq> sep) xs)))"
      by (rule Cons.IH)
    obtain piece pieces where sp: "Split xs sep = piece # pieces"
      using Split_not_Nil [of xs sep] by (cases "Split xs sep") auto
    show ?thesis using False ih sp by simp
  qed
qed

lemma map_of_put: "map_of (put k v m) = (map_of m)(k \<mapsto> v)"
  by (induction m) (auto simp: fun_eq_iff)

lemma put_keys: "fst ` set (put k v m) = insert k (fst ` set m)"
  by (induction m) auto

lemma distinct_put: "distinct (map fst m) \<Longrightarrow> distinct (map fst (put k v m))"
  by (induction m) (auto simp: put_keys)

lemma getRouteSelector_loop_eq:
  "getRouteSelector_loop TrimSpace items m =
     (if \<exists>item \<in> set items. \<not> Contains item (CHR ''='')
      then Inr (None, Some ''Expected key=value format for label-match'')
      else Inr (Some (foldl (put_item TrimSpace) m items), None))"
proof (induction items arbitrary: m)
  case Nil
  show ?case by simp
next
  case (Cons item items)
  show ?case
  proof (cases "Contains item (CHR ''='')")
    case False
    then show ?thesis by simp
  next
    case True
    then have mem: "CHR ''='' \<in> set item" by (simp add: Contains_def)
    have t0: "index_opt (Split item (CHR ''='')) 0 = Some (item_key item)"
      by (simp add: Split_first item_key_def)
    have t1: "index_opt (Split item (CHR ''='')) 1 = Some (item_value item)"
      using Split_second [OF mem] by (simp add: item_value_def)
    have "getRouteSelector_loop TrimSpace (item # items) m =
          getRouteSelector_loop TrimSpace items (put_item TrimSpace m item)"
      using True t0 t1 by (simp add: Let_def put_item_def)
    also have "\<dots> =
          (if \<exists>item \<in> set items. \<not> Contains item (CHR ''='')
           then Inr (None, Some ''Expected key=value format for label-match'')
           else Inr (Some (foldl (put_item TrimSpace) (put_item TrimSpace m item) items), None))"
      by (rule Cons.IH)
    finally show ?thesis using True by simp
  qed
qed

lemma selector_of_snoc:
  "selector_of TrimSpace (items @ [item]) k =
     (if TrimSpace (item_key item) = k then Some (TrimSpace (item_value item))
      else selector_of TrimSpace items k)"
  by (simp add: selector_of_def Let_def)

lemma map_of_foldl_put_item:
  "map_of (foldl (put_item TrimSpace) m items) k =
     (case selector_of TrimSpace items k of None \<Rightarrow> map_of m k | Some v \<Rightarrow> Some v)"
proof (induction items rule: rev_induct)
  case Nil
  show ?case by (simp add: selector_of_def)
next
  case (snoc item items)
  show ?case
    using snoc.IH by (simp add: selector_of_snoc put_item_def map_of_put)
qed

lemma distinct_foldl_put_item:
  "distinct (map fst m) \<Longrightarrow> distinct (map fst (foldl (put_item TrimSpace) m items))"
  by (induction items arbitrary: m) (simp_all add: put_item_def distinct_put)

text \<open>
  Claim C8, as amended. \<open>getRouteSelector\<close> returns an error exactly when its input is
  not empty and some comma-separated item contains no \<open>=\<close>; the map it then returns is
  \<^verbatim>\<open>nil\<close>. On the empty string it returns an empty map that is not \<^verbatim>\<open>nil\<close>, and no
  error. Otherwise it returns, with no error, a map that is not \<^verbatim>\<open>nil\<close> and sends each
  key (an item's text before its first \<open>=\<close>, trimmed) to the trimmed text between the
  first and the second \<open>=\<close> only of the last item with that key; text after a second
  \<open>=\<close> is dropped. It never panics.
\<close>

theorem getRouteSelector_contract:
  "((\<exists>m e. getRouteSelector TrimSpace s = Inr (m, Some e)) \<longleftrightarrow>
      (s \<noteq> [] \<and> (\<exists>item \<in> set (Split s (CHR '','')). \<not> Contains item (CHR ''='')))) \<and>
   (\<forall>m e. getRouteSelector TrimSpace s = Inr (m, Some e) \<longrightarrow>
      m = None \<and> e = ''Expected key=value format for label-match'') \<and>
   getRouteSelector TrimSpace [] = Inr (Some [], None) \<and>
   ((\<forall>item \<in> set (Split s (CHR '','')). Contains item (CHR ''='')) \<longrightarrow>
      (\<exists>m. getRouteSelector TrimSpace s = Inr (Some m, None) \<and> distinct (map fst m) \<and>
           (\<forall>k. map_of m k = selector_of TrimSpace (Split s (CHR '','')) k))) \<and>
   getRouteSelector TrimSpace s \<noteq> Inl IndexOutOfRange"
proof (cases "s = []")
  case True
  then show ?thesis
    by (simp add: getRouteSelector_def Contains_def)
next
  case False
  let ?items = "Split s (CHR '','')"
  have eq: "getRouteSelector TrimSpace s = getRouteSelector_loop TrimSpace ?items []"
    using False by (simp add: getRouteSelector_def)
  have look: "map_of (foldl (put_item TrimSpace) [] ?items) k = selector_of TrimSpace ?items k" for k
    by (simp add: map_of_foldl_put_item split: option.splits)
  have dist: "distinct (map fst (foldl (put_item TrimSpace) [] ?items))"
    by (rule distinct_foldl_put_item) simp
  have empty: "getRouteSelector TrimSpace [] = Inr (Some [], None)"
    by (simp add: getRouteSelector_def)
  show ?thesis
  proof (cases "\<exists>item \<in> set ?items. \<not> Contains item (CHR ''='')")
    case True
    then have "getRouteSelector TrimSpace s =
               Inr (None, Some ''Expected key=value format for label-match'')"
      unfolding eq getRouteSelector_loop_eq by simp
    then show ?thesis using True False empty by simp
  next
    case all: False
    then have "getRouteSelector TrimSpace s =
               Inr (Some (foldl (put_item TrimSpace) [] ?items), None)"
      unfolding eq getRouteSelector_loop_eq by simp
    then show ?thesis using all False empty look dist by simp
  qed
qed

theorem getRouteSelector_contract_witness:
  "list_all (\<lambda>item. Contains item (CHR ''='')) (Split '' a=1=z,b=2'' (CHR '','')) \<and>
   (\<exists>m. getRouteSelector id '' a=1=z,b=2'' = Inr (Some m, None) \<and> distinct (map fst m) \<and>
        map_of m '' a'' = Some ''1'' \<and> map_of m ''b'' = Some ''2'') \<and>
   list_ex (\<lambda>item. \<not> Contains item (CHR ''='')) (Split ''a=1,b'' (CHR '','')) \<and>
   getRouteSelector id ''a=1,b'' = Inr (None, Some ''Expected key=value format for label-match'')"
proof -
  have all: "list_all (\<lambda>item. Contains item (CHR ''='')) (Split '' a=1=z,b=2'' (CHR '',''))"
    by code_simp
  then have "\<forall>item \<in> set (Split '' a=1=z,b=2'' (CHR '','')). Contains item (CHR ''='')"
    by (simp add: list_all_iff)
  with getRouteSelector_contract [of id "'' a=1=z,b=2''"]
  obtain m where m: "getRouteSelector id '' a=1=z,b=2'' = Inr (Some m, None)" "distinct (map fst m)"
    and look: "\<forall>k. map_of m k = selector_of id (Split '' a=1=z,b=2'' (CHR '','')) k"
    by blast
  have "selector_of id (Split '' a=1=z,b=2'' (CHR '','')) '' a'' = Some ''1''"
    by code_simp
  then have a: "map_of m '' a'' = Some ''1''" using look by simp
  have "selector_of id (Split '' a=1=z,b=2'' (CHR '','')) ''b'' = Some ''2''"
    by code_simp
  then have b: "map_of m ''b'' = Some ''2''" using look by simp
  have some: "list_ex (\<lambda>item. \<not> Contains item (CHR ''='')) (Split ''a=1,b'' (CHR '',''))"
    by code_simp
  then have "''a=1,b'' \<noteq> [] \<and>
      (\<exists>item \<in> set (Split ''a=1,b'' (CHR '','')). \<not> Contains item (CHR ''=''))"
    by (simp add: list_ex_iff)
  with getRouteSelector_contract [of id "''a=1,b''"]
  obtain m' e where e: "getRouteSelector id ''a=1,b'' = Inr (m', Some e)"
    by blast
  with getRouteSelector_contract [of id "''a=1,b''"]
  have "m' = None \<and> e = ''Expected key=value format for label-match''"
    by blast
  then have err: "getRouteSelector id ''a=1,b'' =
                  Inr (None, Some ''Expected key=value format for label-match'')"
    using e by simp
  show ?thesis using all m a b some err by blast
qed

text \<open>
  As first stated, the claim has the map send each item's key to that item's value.
  With two items of the same key it does not: the second item's value replaces the
  first's.
\<close>

theorem getRouteSelector_duplicate_key_counterexample:
  "Split ''a=1,a=2'' (CHR '','') = [''a=1'', ''a=2''] \<and>
   item_key ''a=1'' = ''a'' \<and> item_value ''a=1'' = ''1'' \<and>
   getRouteSelector id ''a=1,a=2'' = Inr (Some [(''a'', ''2'')], None) \<and>
   map_of [(''a'', ''2'')] (id (item_key ''a=1'')) \<noteq> Some (id (item_value ''a=1''))"
  by code_simp

section \<open>Properties of RandomLabel\<close>

declare RandomLabel_loop.simps [simp del]

lemma RandomLabel_loop_done: "\<not> 0 < sz \<Longrightarrow> RandomLabel_loop sz value chars = chars"
  by (subst RandomLabel_loop.simps) simp

lemma RandomLabel_loop_letter:
  "0 < sz \<Longrightarrow> (sz - 1) smod 2 = 0 \<Longrightarrow>
   RandomLabel_loop sz value chars =
   RandomLabel_loop (sz - 1) (value sdiv letterCount)
     (chars[nat (sz - 1) := byte (aCode + value smod letterCount)])"
  by (subst RandomLabel_loop.simps) simp

lemma RandomLabel_loop_digit:
  "0 < sz \<Longrightarrow> (sz - 1) smod 2 \<noteq> 0 \<Longrightarrow>
   RandomLabel_loop sz value chars =
   RandomLabel_loop (sz - 1) (value sdiv digitCount)
     (chars[nat (sz - 1) := byte (zeroCode + value smod digitCount)])"
  by (subst RandomLabel_loop.simps) simp

lemma smod_nonneg: "0 \<le> (v::int) \<Longrightarrow> 0 < m \<Longrightarrow> v smod m = v mod m"
  by (simp add: smod_int_alt_def sgn_if)

lemma sdiv_nonneg: "0 \<le> (v::int) \<Longrightarrow> 0 < m \<Longrightarrow> v sdiv m = v div m"
  by (simp add: signed_divide_int_def sgn_if)

lemma sdiv_nonneg_ge0: "0 \<le> (v::int) \<Longrightarrow> 0 < m \<Longrightarrow> 0 \<le> v sdiv m"
  by (simp add: sdiv_nonneg pos_imp_zdiv_nonneg_iff)

lemma byte_letter:
  assumes "0 \<le> v"
  shows "is_lower_letter (byte (aCode + v smod letterCount))"
proof -
  have m: "v smod letterCount = v mod 26"
    using assms by (simp add: letterCount_def zCode_def aCode_def smod_nonneg)
  have lo: "0 \<le> v mod 26" and hi: "v mod 26 < 26" by simp_all
  have "(97 + v mod 26) mod 256 = 97 + v mod 26"
    using lo hi by (intro mod_pos_pos_trivial) linarith+
  then show ?thesis
    using lo hi by (simp add: is_lower_letter_def byte_def m aCode_def)
qed

lemma byte_digit:
  assumes "0 \<le> v"
  shows "is_decimal_digit (byte (zeroCode + v smod digitCount))"
proof -
  have m: "v smod digitCount = v mod 10"
    using assms by (simp add: digitCount_def nineCode_def zeroCode_def smod_nonneg)
  have lo: "0 \<le> v mod 10" and hi: "v mod 10 < 10" by simp_all
  have "(48 + v mod 10) mod 256 = 48 + v mod 10"
    using lo hi by (intro mod_pos_pos_trivial) linarith+
  then show ?thesis
    using lo hi by (simp add: is_decimal_digit_def byte_def m zeroCode_def)
qed

lemma smod_2_even: "0 \<le> (k::int) \<Longrightarrow> (k smod 2 = 0) = even (nat k)"
proof -
  assume k: "0 \<le> k"
  have "(k smod 2 = 0) = (k mod 2 = 0)" using k by (simp add: smod_nonneg)
  also have "\<dots> = even k" by presburger
  also have "\<dots> = even (nat k)" using k by (simp add: even_nat_iff)
  finally show ?thesis .
qed

lemma RandomLabel_loop_length: "length (RandomLabel_loop sz value chars) = length chars"
proof (induction sz "value" chars rule: RandomLabel_loop.induct)
  case (1 sz "value" chars)
  show ?case
  proof (cases "0 < sz")
    case False
    then show ?thesis by (simp add: RandomLabel_loop_done)
  next
    case True
    show ?thesis
    proof (cases "(sz - 1) smod 2 = 0")
      case ev: True
      show ?thesis
        using "1.IH"(1)[OF True ev] by (simp add: RandomLabel_loop_letter[OF True ev])
    next
      case od: False
      show ?thesis
        using "1.IH"(2)[OF True od] by (simp add: RandomLabel_loop_digit[OF True od])
    qed
  qed
qed

lemma RandomLabel_loop_keeps:
  "nat sz \<le> i \<Longrightarrow> RandomLabel_loop sz value chars ! i = chars ! i"
proof (induction sz "value" chars rule: RandomLabel_loop.induct)
  case (1 sz "value" chars)
  show ?case
  proof (cases "sz > 0")
    case False
    then show ?thesis by (simp add: RandomLabel_loop_done)
  next
    case True
    then have i: "nat (sz - 1) \<le> i" "nat (sz - 1) \<noteq> i" using "1.prems" by linarith+
    show ?thesis
    proof (cases "(sz - 1) smod 2 = 0")
      case even: True
      show ?thesis
        using "1.IH"(1)[OF True even i(1)] i(2)
        by (simp add: RandomLabel_loop_letter[OF True even])
    next
      case odd: False
      show ?thesis
        using "1.IH"(2)[OF True odd i(1)] i(2)
        by (simp add: RandomLabel_loop_digit[OF True odd])
    qed
  qed
qed

lemma RandomLabel_loop_shape:
  "0 \<le> value \<Longrightarrow> nat sz \<le> length chars \<Longrightarrow>
   label_shape (nat sz) (RandomLabel_loop sz value chars)"
proof (induction sz "value" chars rule: RandomLabel_loop.induct)
  case (1 sz "value" chars)
  show ?case
  proof (cases "sz > 0")
    case False
    then show ?thesis by (simp add: label_shape_def)
  next
    case True
    let ?k = "nat (sz - 1)"
    have k: "?k < length chars" "nat sz = Suc ?k" using True "1.prems" by linarith+
    show ?thesis
    proof (cases "(sz - 1) smod 2 = 0")
      case ev: True
      let ?cs = "chars[?k := byte (aCode + value smod letterCount)]"
      have step: "RandomLabel_loop sz value chars = RandomLabel_loop (sz - 1) (value sdiv letterCount) ?cs"
        using True ev by (rule RandomLabel_loop_letter)
      have v': "0 \<le> value sdiv letterCount"
        using "1.prems"(1) by (simp add: sdiv_nonneg_ge0 letterCount_def zCode_def aCode_def)
      have below: "label_shape ?k (RandomLabel_loop (sz - 1) (value sdiv letterCount) ?cs)"
        using "1.IH"(1)[OF True ev v'] k by simp
      have at: "RandomLabel_loop (sz - 1) (value sdiv letterCount) ?cs ! ?k = byte (aCode + value smod letterCount)"
        using k by (simp add: RandomLabel_loop_keeps)
      have "even ?k" using ev True by (simp add: smod_2_even)
      then show ?thesis
        unfolding step k(2) using below at byte_letter[OF "1.prems"(1)]
        by (auto simp: label_shape_def less_Suc_eq)
    next
      case od: False
      let ?cs = "chars[?k := byte (zeroCode + value smod digitCount)]"
      have step: "RandomLabel_loop sz value chars = RandomLabel_loop (sz - 1) (value sdiv digitCount) ?cs"
        using True od by (rule RandomLabel_loop_digit)
      have v': "0 \<le> value sdiv digitCount"
        using "1.prems"(1) by (simp add: sdiv_nonneg_ge0 digitCount_def nineCode_def zeroCode_def)
      have below: "label_shape ?k (RandomLabel_loop (sz - 1) (value sdiv digitCount) ?cs)"
        using "1.IH"(2)[OF True od v'] k by simp
      have at: "RandomLabel_loop (sz - 1) (value sdiv digitCount) ?cs ! ?k = byte (zeroCode + value smod digitCount)"
        using k by (simp add: RandomLabel_loop_keeps)
      have "odd ?k" using od True by (simp add: smod_2_even)
      then show ?thesis
        unfolding step k(2) using below at byte_digit[OF "1.prems"(1)]
        by (auto simp: label_shape_def less_Suc_eq)
    qed
  qed
qed

text \<open>
  Claim C9. For every non-negative size (and every number \<^verbatim>\<open>rand.Int()\<close> can return,
  that is, every non-negative one), \<open>RandomLabel\<close> returns a string of exactly that
  length; each character at an even index is a lowercase ASCII letter \<open>a\<close> to \<open>z\<close>,
  each character at an odd index a decimal digit \<open>0\<close> to \<open>9\<close>.
\<close>

theorem RandomLabel_shape:
  assumes "0 \<le> sz" and "0 \<le> value"
  shows "\<exists>s. RandomLabel value sz = Inr s \<and> length s = nat sz \<and>
             (\<forall>i<nat sz. (even i \<longrightarrow> is_lower_letter (s ! i)) \<and>
                          (odd i \<longrightarrow> is_decimal_digit (s ! i)))"
proof -
  let ?s = "RandomLabel_loop sz value (replicate (nat sz) (byte 0))"
  have "RandomLabel value sz = Inr ?s" using assms(1) by (simp add: RandomLabel_def)
  moreover have "length ?s = nat sz" by (simp add: RandomLabel_loop_length)
  moreover have "label_shape (nat sz) ?s"
    using assms(2) by (intro RandomLabel_loop_shape) simp_all
  ultimately show ?thesis unfolding label_shape_def by blast
qed

theorem RandomLabel_shape_witness:
  "(0::int) \<le> 7 \<and> (0::int) \<le> 123456789123 \<and>
   (\<exists>s. RandomLabel 123456789123 7 = Inr s \<and> length s = 7 \<and>
        is_lower_letter (s ! 0) \<and> is_decimal_digit (s ! 1) \<and> is_lower_letter (s ! 6))"
proof -
  have "\<exists>s. RandomLabel 123456789123 7 = Inr s \<and> length s = nat 7 \<and>
          (\<forall>i<nat 7. (even i \<longrightarrow> is_lower_letter (s ! i)) \<and>
                         (odd i \<longrightarrow> is_decimal_digit (s ! i)))"
    by (rule RandomLabel_shape) simp_all
  then obtain s where s: "RandomLabel 123456789123 7 = Inr s" "length s = nat 7"
    and sh: "\<forall>i<nat 7. (even i \<longrightarrow> is_lower_letter (s ! i)) \<and>
                         (odd i \<longrightarrow> is_decimal_digit (s ! i))"
    by blast
  have "is_lower_letter (s ! 0)" using sh [rule_format, of 0] by simp
  moreover have "is_decimal_digit (s ! 1)" using sh [rule_format, of 1] by simp
  moreover have "is_lower_letter (s ! 6)" using sh [rule_format, of 6] by simp
  ultimately show ?thesis using s by simp
qed

lemma RandomLabel_negative_size: "RandomLabel 5 (-1) = Inl MakeSliceLenOutOfRange"
  by (simp add: RandomLabel_def)

section \<open>The exit policy of the commands\<close>





























end
